theory Spec2Isabelle
  imports Complex_Main "HOL-Library.Word"
begin

section \<open>Data model of imgResample.c\<close>

text \<open>
  \<^verbatim>\<open>typedef struct { unsigned char red,green,blue; } PPMPixel;\<close>
  \<^verbatim>\<open>typedef struct { int x, y; PPMPixel *data; } PPMImage;\<close>

  The fields \<^verbatim>\<open>x\<close>, \<^verbatim>\<open>y\<close> and \<^verbatim>\<open>data\<close> of an image are called \<open>img_x\<close>, \<open>img_y\<close>
  and \<open>img_data\<close> here. \<open>img_data\<close> is the block that \<^verbatim>\<open>data\<close> points to: its length is the
  number of pixels that were allocated, which for a destination image is more than
  \<open>img_x * img_y\<close>.

  Numbers: \<^verbatim>\<open>unsigned char\<close> is \<open>8 word\<close>. An \<^verbatim>\<open>int\<close> is an \<open>int\<close> with the range
  checked where the program converts into it or indexes with it. A \<^verbatim>\<open>double\<close> is a \<open>real\<close>:
  rounding is not modelled, and a quotient by zero (which is not a number at all) is
  \<open>None\<close>.
\<close>

type_synonym uint8_t = "8 word"

record PPMPixel =
  red :: uint8_t
  green :: uint8_t
  blue :: uint8_t

record PPMImage =
  img_x :: int
  img_y :: int
  img_data :: "PPMPixel list"

text \<open>
  What C leaves undefined is an error value of the model: an access outside an allocated
  block, a pointer to no object, a conversion of a \<^verbatim>\<open>double\<close> that does not fit the
  target type (which includes the conversion of a NaN), an \<^verbatim>\<open>int\<close> that overflows.
\<close>

datatype error = OutOfBounds | InvalidPointer | UndefinedConversion | IntOverflow

definition ebind :: "error + 'a \<Rightarrow> ('a \<Rightarrow> error + 'b) \<Rightarrow> error + 'b" where
  "ebind m f = (case m of Inl e \<Rightarrow> Inl e | Inr v \<Rightarrow> f v)"

definition INT_MAX :: int where
  "INT_MAX = 2147483647"

definition INT_MIN :: int where
  "INT_MIN = - 2147483648"

text \<open>The image objects of a run live in a heap; a pointer is an index into it.\<close>

type_synonym addr = nat

type_synonym heap = "PPMImage list"

definition deref :: "heap \<Rightarrow> addr \<Rightarrow> error + PPMImage" where
  "deref h a = (if a < length h then Inr (h ! a) else Inl InvalidPointer)"

text \<open>\<^verbatim>\<open>img->data[i]\<close> as an rvalue: \<open>i\<close> is an \<^verbatim>\<open>int\<close> and must lie inside the block.\<close>

definition load_pixel :: "PPMImage \<Rightarrow> int \<Rightarrow> error + PPMPixel" where
  "load_pixel img i =
     (if i < INT_MIN \<or> INT_MAX < i then Inl IntOverflow
      else if 0 \<le> i \<and> nat i < length (img_data img) then Inr (img_data img ! nat i)
      else Inl OutOfBounds)"

text \<open>\<^verbatim>\<open>h[a]->data[i] = p\<close>: only the pixel block of the object at \<open>a\<close> changes.\<close>

definition store_pixel :: "heap \<Rightarrow> addr \<Rightarrow> int \<Rightarrow> PPMPixel \<Rightarrow> error + heap" where
  "store_pixel h a i p =
     ebind (deref h a) (\<lambda>img.
       if i < INT_MIN \<or> INT_MAX < i then Inl IntOverflow
       else if 0 \<le> i \<and> nat i < length (img_data img)
         then Inr (h[a := img\<lparr>img_data := (img_data img)[nat i := p]\<rparr>])
       else Inl OutOfBounds)"

text \<open>
  \<^verbatim>\<open>#define CLAMP(v, min, max) if(v < min) { v = min; } else if(v > max) { v = max; }\<close>
  The macro assigns to \<open>v\<close>; the model returns the new value of \<open>v\<close>.
\<close>

definition CLAMP :: "'a::linorder \<Rightarrow> 'a \<Rightarrow> 'a \<Rightarrow> 'a" where
  "CLAMP v lo hi = (if v < lo then lo else if v > hi then hi else v)"

section \<open>Conversions of a double\<close>

text \<open>A cast of a \<^verbatim>\<open>double\<close> to an integer type drops the fraction (towards zero).\<close>

definition c_trunc :: "real \<Rightarrow> int" where
  "c_trunc r = (if 0 \<le> r then \<lfloor>r\<rfloor> else - \<lfloor>- r\<rfloor>)"

definition double_to_int :: "real \<Rightarrow> error + int" where
  "double_to_int r =
     (if INT_MIN \<le> c_trunc r \<and> c_trunc r \<le> INT_MAX then Inr (c_trunc r)
      else Inl UndefinedConversion)"

text \<open>\<^verbatim>\<open>(long)d\<close> on a 64-bit \<^verbatim>\<open>long\<close>.\<close>

definition double_to_long :: "real \<Rightarrow> error + int" where
  "double_to_long r =
     (if - (2 ^ 63) \<le> c_trunc r \<and> c_trunc r < 2 ^ 63 then Inr (c_trunc r)
      else Inl UndefinedConversion)"

text \<open>Storing a \<^verbatim>\<open>long\<close> into an \<^verbatim>\<open>int\<close> keeps the low 32 bits.\<close>

definition long_to_int :: "int \<Rightarrow> int" where
  "long_to_int v = sint (word_of_int v :: 32 word)"

text \<open>The argument of \<^verbatim>\<open>malloc\<close> is a \<^verbatim>\<open>size_t\<close> of 64 bits.\<close>

definition double_to_size_t :: "real \<Rightarrow> error + nat" where
  "double_to_size_t r =
     (if 0 \<le> c_trunc r \<and> c_trunc r < 2 ^ 64 then Inr (nat (c_trunc r))
      else Inl UndefinedConversion)"

text \<open>\<^verbatim>\<open>(uint8_t)value\<close>, defined when the truncated value is in \<open>0..255\<close>.\<close>

definition double_to_uint8 :: "real \<Rightarrow> error + uint8_t" where
  "double_to_uint8 r =
     (if 0 \<le> c_trunc r \<and> c_trunc r \<le> 255 then Inr (word_of_int (c_trunc r))
      else Inl UndefinedConversion)"

text \<open>
  \<^verbatim>\<open>(double)a / (double)b\<close>: with \<open>b = 0\<close> the quotient is a NaN or an infinity, no real
  number.
\<close>

definition double_div :: "int \<Rightarrow> int \<Rightarrow> real option" where
  "double_div a b = (if b = 0 then None else Some (real_of_int a / real_of_int b))"

section \<open>The cubic kernel\<close>

text \<open>
  \<^verbatim>\<open>double a = -A / 2.0f + (3.0f*B) / 2.0f - (3.0f*C) / 2.0f + D / 2.0f;\<close>
  \<^verbatim>\<open>double b = A - (5.0f*B) / 2.0f + 2.0f*C - D / 2.0f;\<close>
  \<^verbatim>\<open>double c = -A / 2.0f + C / 2.0f;\<close>
  \<^verbatim>\<open>double d = B;\<close>
  \<^verbatim>\<open>return a*t*t*t + b*t*t + c*t + d;\<close>
\<close>

definition cubic_hermite :: "real \<Rightarrow> real \<Rightarrow> real \<Rightarrow> real \<Rightarrow> real \<Rightarrow> real" where
  "cubic_hermite A B C D t =
     (let a = - A / 2 + (3 * B) / 2 - (3 * C) / 2 + D / 2;
          b = A - (5 * B) / 2 + 2 * C - D / 2;
          c = - A / 2 + C / 2;
          d = B
      in a * t * t * t + b * t * t + c * t + d)"

section \<open>The edge sampler\<close>

text \<open>
  \<^verbatim>\<open>CLAMP(x, 0, source_image->x - 1); CLAMP(y, 0, source_image->y - 1);\<close>
  \<^verbatim>\<open>temp[0] = source_image->data[x+(source_image->x*y)].red;\<close> and the same for
  \<^verbatim>\<open>green\<close> and \<^verbatim>\<open>blue\<close>. The result is the array \<^verbatim>\<open>temp\<close>.
\<close>

definition get_pixel_clamped :: "PPMImage \<Rightarrow> int \<Rightarrow> int \<Rightarrow> error + uint8_t list" where
  "get_pixel_clamped source_image x y =
     (let x' = CLAMP x 0 (img_x source_image - 1);
          y' = CLAMP y 0 (img_y source_image - 1)
      in ebind (load_pixel source_image (x' + img_x source_image * y')) (\<lambda>p.
           Inr [red p, green p, blue p]))"

section \<open>The bicubic sampler\<close>

text \<open>
  \<^verbatim>\<open>double x = (u * source_image->x)-0.5; int xint = (int)x; double xfract = x-floor(x);\<close>
  and the same for \<open>y\<close> from \<open>v\<close>.
\<close>

definition sample_x :: "PPMImage \<Rightarrow> real \<Rightarrow> real" where
  "sample_x source_image u = u * real_of_int (img_x source_image) - 1 / 2"

definition sample_xint :: "PPMImage \<Rightarrow> real \<Rightarrow> error + int" where
  "sample_xint source_image u = double_to_int (sample_x source_image u)"

definition sample_xfract :: "PPMImage \<Rightarrow> real \<Rightarrow> real" where
  "sample_xfract source_image u =
     sample_x source_image u - real_of_int \<lfloor>sample_x source_image u\<rfloor>"

definition sample_y :: "PPMImage \<Rightarrow> real \<Rightarrow> real" where
  "sample_y source_image v = v * real_of_int (img_y source_image) - 1 / 2"

definition sample_yint :: "PPMImage \<Rightarrow> real \<Rightarrow> error + int" where
  "sample_yint source_image v = double_to_int (sample_y source_image v)"

definition sample_yfract :: "PPMImage \<Rightarrow> real \<Rightarrow> real" where
  "sample_yfract source_image v =
     sample_y source_image v - real_of_int \<lfloor>sample_y source_image v\<rfloor>"

text \<open>
  One row of the neighbourhood: the four calls
  \<^verbatim>\<open>get_pixel_clamped(source_image, xint - 1, yint + k, p0k)\<close> ...
  \<^verbatim>\<open>get_pixel_clamped(source_image, xint + 2, yint + k, p3k)\<close>.
\<close>

definition gather_row :: "PPMImage \<Rightarrow> int \<Rightarrow> int \<Rightarrow> error + uint8_t list list" where
  "gather_row source_image xint yk =
     ebind (get_pixel_clamped source_image (xint - 1) yk) (\<lambda>p0.
     ebind (get_pixel_clamped source_image (xint + 0) yk) (\<lambda>p1.
     ebind (get_pixel_clamped source_image (xint + 1) yk) (\<lambda>p2.
     ebind (get_pixel_clamped source_image (xint + 2) yk) (\<lambda>p3.
       Inr [p0, p1, p2, p3]))))"

text \<open>
  \<^verbatim>\<open>double colk = cubic_hermite(p0k[i], p1k[i], p2k[i], p3k[i], xfract);\<close>
\<close>

definition hermite_row :: "uint8_t list list \<Rightarrow> nat \<Rightarrow> real \<Rightarrow> real" where
  "hermite_row r i xfract =
     cubic_hermite (real (unat (r ! 0 ! i))) (real (unat (r ! 1 ! i)))
       (real (unat (r ! 2 ! i))) (real (unat (r ! 3 ! i))) xfract"

text \<open>
  The body of \<^verbatim>\<open>for (i = 0; i < 3; i++)\<close>: four row interpolations, one column
  interpolation, \<^verbatim>\<open>CLAMP(value, 0.0f, 255.0f)\<close> and \<^verbatim>\<open>sample[i] = (uint8_t)value\<close>.
\<close>

definition sample_channel ::
  "uint8_t list list \<Rightarrow> uint8_t list list \<Rightarrow> uint8_t list list \<Rightarrow> uint8_t list list \<Rightarrow>
   real \<Rightarrow> real \<Rightarrow> nat \<Rightarrow> error + uint8_t" where
  "sample_channel r0 r1 r2 r3 xfract yfract i =
     (let col0 = hermite_row r0 i xfract;
          col1 = hermite_row r1 i xfract;
          col2 = hermite_row r2 i xfract;
          col3 = hermite_row r3 i xfract;
          value = cubic_hermite col0 col1 col2 col3 yfract
      in double_to_uint8 (CLAMP value 0 255))"

text \<open>
  The part of \<^verbatim>\<open>sample_bicubic\<close> after the coordinates: the sixteen calls of
  \<^verbatim>\<open>get_pixel_clamped\<close>, row by row, and the loop over the three channels. The arguments
  \<open>xint - 1\<close> ... \<open>xint + 2\<close> and \<open>yint - 1\<close> ... \<open>yint + 2\<close> are \<^verbatim>\<open>int\<close> expressions; they
  are checked once, before the calls.
\<close>

definition interpolate_at ::
  "PPMImage \<Rightarrow> int \<Rightarrow> int \<Rightarrow> real \<Rightarrow> real \<Rightarrow> error + uint8_t list" where
  "interpolate_at source_image xint yint xfract yfract =
     (if xint - 1 < INT_MIN \<or> INT_MAX < xint + 2 \<or> yint - 1 < INT_MIN \<or> INT_MAX < yint + 2
      then Inl IntOverflow
      else
        ebind (gather_row source_image xint (yint - 1)) (\<lambda>r0.
        ebind (gather_row source_image xint (yint + 0)) (\<lambda>r1.
        ebind (gather_row source_image xint (yint + 1)) (\<lambda>r2.
        ebind (gather_row source_image xint (yint + 2)) (\<lambda>r3.
        ebind (sample_channel r0 r1 r2 r3 xfract yfract 0) (\<lambda>s0.
        ebind (sample_channel r0 r1 r2 r3 xfract yfract 1) (\<lambda>s1.
        ebind (sample_channel r0 r1 r2 r3 xfract yfract 2) (\<lambda>s2.
          Inr [s0, s1, s2]))))))))"

text \<open>
  \<^verbatim>\<open>void sample_bicubic(PPMImage *source_image, double u, double v, uint8_t sample[])\<close>.
  The result is the array \<^verbatim>\<open>sample\<close>.
\<close>

definition sample_bicubic :: "PPMImage \<Rightarrow> real \<Rightarrow> real \<Rightarrow> error + uint8_t list" where
  "sample_bicubic source_image u v =
     ebind (sample_xint source_image u) (\<lambda>xint.
     ebind (sample_yint source_image v) (\<lambda>yint.
       interpolate_at source_image xint yint
         (sample_xfract source_image u) (sample_yfract source_image v)))"

text \<open>
  The sampler as the specification words it, for comparison with \<open>sample_bicubic\<close>:
  \<open>x = u * sourceWidth - 0.5\<close>, \<open>xint = floor(x)\<close>, \<open>xfract = x - xint\<close>, the same for
  \<open>y\<close>, and then the neighbourhood and the interpolation.
\<close>

definition spec_sampleAt :: "PPMImage \<Rightarrow> real \<Rightarrow> real \<Rightarrow> error + uint8_t list" where
  "spec_sampleAt source_image u v =
     (let x = u * real_of_int (img_x source_image) - 1 / 2;
          y = v * real_of_int (img_y source_image) - 1 / 2;
          xint = \<lfloor>x\<rfloor>;
          yint = \<lfloor>y\<rfloor>
      in interpolate_at source_image xint yint (x - real_of_int xint) (y - real_of_int yint))"

section \<open>Loops\<close>

text \<open>
  \<^verbatim>\<open>for (k = 0; k < n; k++) body\<close> over a state that a failing body abandons. The bounds
  of the program's loops are fields \<open>img_x\<close> and \<open>img_y\<close> of the destination, which no loop
  body assigns (bodies go through \<open>store_pixel\<close>), so each bound is read once.
\<close>

fun for_each :: "('a \<Rightarrow> 's \<Rightarrow> error + 's) \<Rightarrow> 'a list \<Rightarrow> 's \<Rightarrow> error + 's" where
  "for_each body [] s = Inr s"
| "for_each body (k # ks) s = ebind (body k s) (for_each body ks)"

definition for_loop :: "int \<Rightarrow> (int \<Rightarrow> 's \<Rightarrow> error + 's) \<Rightarrow> 's \<Rightarrow> error + 's" where
  "for_loop n body s = for_each (\<lambda>k. body (int k)) [0..<nat n] s"

section \<open>Resize by a factor\<close>

text \<open>
  The body of the inner loop of \<^verbatim>\<open>resize_image\<close>:
  \<^verbatim>\<open>double u = (double)x / (double)(destination_image->x - 1);\<close>
  \<^verbatim>\<open>sample_bicubic(source_image, u, v, sample);\<close>
  and the three stores into \<^verbatim>\<open>destination_image->data[x+((destination_image->x)*y)]\<close>.
  A \<open>u\<close> or \<open>v\<close> that is no number reaches the cast \<^verbatim>\<open>(int)x\<close> of \<^verbatim>\<open>sample_bicubic\<close>,
  which C leaves undefined.
\<close>

definition resize_image_pixel ::
  "addr \<Rightarrow> addr \<Rightarrow> int \<Rightarrow> real option \<Rightarrow> int \<Rightarrow> heap \<Rightarrow> error + heap" where
  "resize_image_pixel source_image destination_image y v x h =
     ebind (deref h destination_image) (\<lambda>d.
     ebind (deref h source_image) (\<lambda>s.
       let u = double_div x (img_x d - 1) in
       ebind (case (u, v) of
                (Some u', Some v') \<Rightarrow> sample_bicubic s u' v'
              | _ \<Rightarrow> Inl UndefinedConversion) (\<lambda>sample.
         store_pixel h destination_image (x + img_x d * y)
           \<lparr>red = sample ! 0, green = sample ! 1, blue = sample ! 2\<rparr>)))"

text \<open>
  The body of the outer loop:
  \<^verbatim>\<open>double v = (double)y / (double)(destination_image->y - 1);\<close> and the inner loop
  \<^verbatim>\<open>for (x = 0; x < destination_image->x; ++x)\<close>.
\<close>

definition resize_image_row :: "addr \<Rightarrow> addr \<Rightarrow> int \<Rightarrow> heap \<Rightarrow> error + heap" where
  "resize_image_row source_image destination_image y h =
     ebind (deref h destination_image) (\<lambda>d.
       let v = double_div y (img_y d - 1) in
       for_loop (img_x d) (resize_image_pixel source_image destination_image y v) h)"

text \<open>
  \<^verbatim>\<open>void resize_image(PPMImage *source_image, PPMImage *destination_image, double scale)\<close>:
  \<^verbatim>\<open>destination_image->x = (long)((double)(source_image->x)*scale);\<close>
  \<^verbatim>\<open>destination_image->y = (long)((double)(source_image->y)*scale);\<close>
  and the loop \<^verbatim>\<open>for (y = 0; y < destination_image->y; y++)\<close>.
\<close>

definition resize_image :: "heap \<Rightarrow> addr \<Rightarrow> addr \<Rightarrow> real \<Rightarrow> error + heap" where
  "resize_image h source_image destination_image scale =
     ebind (deref h source_image) (\<lambda>s.
     ebind (deref h destination_image) (\<lambda>d.
     ebind (double_to_long (real_of_int (img_x s) * scale)) (\<lambda>lx.
       let h1 = h[destination_image := d\<lparr>img_x := long_to_int lx\<rparr>] in
       ebind (deref h1 source_image) (\<lambda>s1.
       ebind (deref h1 destination_image) (\<lambda>d1.
       ebind (double_to_long (real_of_int (img_y s1) * scale)) (\<lambda>ly.
         let h2 = h1[destination_image := d1\<lparr>img_y := long_to_int ly\<rparr>] in
         for_loop (long_to_int ly) (resize_image_row source_image destination_image) h2))))))"

section \<open>Allocation of the destination\<close>

text \<open>
  \<^verbatim>\<open>malloc\<close> returns memory with any content: the fields and pixels of a fresh image are
  given by a parameter.
\<close>

record uninit =
  uninit_x :: int
  uninit_y :: int
  uninit_data :: "nat \<Rightarrow> PPMPixel"

text \<open>
  \<^verbatim>\<open>static PPMImage *init_destination_image(PPMImage *source, double scale)\<close>:
  \<^verbatim>\<open>img->data = (PPMPixel*)malloc(source->x*(scale+.1)*source->y*(scale+.5)*sizeof(PPMPixel));\<close>
  with \<^verbatim>\<open>sizeof(PPMPixel)\<close> = 3. The block holds as many whole pixels as fit into the
  bytes. Both calls of \<^verbatim>\<open>malloc\<close> are taken to succeed.
\<close>

definition init_destination_image :: "uninit \<Rightarrow> heap \<Rightarrow> addr \<Rightarrow> real \<Rightarrow> error + heap \<times> addr" where
  "init_destination_image fresh h source scale =
     ebind (deref h source) (\<lambda>s.
     ebind (double_to_size_t
              (real_of_int (img_x s) * (scale + 1 / 10) * real_of_int (img_y s) * (scale + 1 / 2) * 3))
       (\<lambda>bytes.
         Inr (h @ [\<lparr>img_x = uninit_x fresh, img_y = uninit_y fresh,
                    img_data = map (uninit_data fresh) [0..<bytes div 3]\<rparr>],
              length h)))"

section \<open>The quick 2x downsample\<close>

text \<open>Integer division of C truncates towards zero.\<close>

definition c_div :: "int \<Rightarrow> int \<Rightarrow> int" where
  "c_div a b = sgn a * sgn b * (\<bar>a\<bar> div \<bar>b\<bar>)"

datatype channel = Red | Green | Blue

fun get_channel :: "channel \<Rightarrow> PPMPixel \<Rightarrow> uint8_t" where
  "get_channel Red p = red p"
| "get_channel Green p = green p"
| "get_channel Blue p = blue p"

fun set_channel :: "channel \<Rightarrow> uint8_t \<Rightarrow> PPMPixel \<Rightarrow> PPMPixel" where
  "set_channel Red v p = p\<lparr>red := v\<rparr>"
| "set_channel Green v p = p\<lparr>green := v\<rparr>"
| "set_channel Blue v p = p\<lparr>blue := v\<rparr>"

text \<open>
  \<^verbatim>\<open>destination_image->data[di].c = source_image->data[si].c/4;\<close>
  The operand is promoted to \<^verbatim>\<open>int\<close>, divided, and stored back into 8 bits.
\<close>

definition assign_quarter :: "channel \<Rightarrow> addr \<Rightarrow> int \<Rightarrow> addr \<Rightarrow> int \<Rightarrow> heap \<Rightarrow> error + heap" where
  "assign_quarter c destination_image di source_image si h =
     ebind (deref h source_image) (\<lambda>s.
     ebind (load_pixel s si) (\<lambda>sp.
     ebind (deref h destination_image) (\<lambda>d.
     ebind (load_pixel d di) (\<lambda>dp.
       store_pixel h destination_image di (set_channel c (get_channel c sp div 4) dp)))))"

text \<open>
  \<^verbatim>\<open>destination_image->data[di].c += source_image->data[si].c/4;\<close>
  The sum is computed in \<^verbatim>\<open>int\<close> and stored back into 8 bits, which is addition of
  \<open>8 word\<close>.
\<close>

definition add_quarter :: "channel \<Rightarrow> addr \<Rightarrow> int \<Rightarrow> addr \<Rightarrow> int \<Rightarrow> heap \<Rightarrow> error + heap" where
  "add_quarter c destination_image di source_image si h =
     ebind (deref h source_image) (\<lambda>s.
     ebind (load_pixel s si) (\<lambda>sp.
     ebind (deref h destination_image) (\<lambda>d.
     ebind (load_pixel d di) (\<lambda>dp.
       store_pixel h destination_image di
         (set_channel c (get_channel c dp + get_channel c sp div 4) dp)))))"

text \<open>
  The four statements of one channel in the body of the loops of \<^verbatim>\<open>resize2\<close>, with the
  source indices \<^verbatim>\<open>2*x+((source_image->x)*2*y)\<close>, \<^verbatim>\<open>2*x+1+((source_image->x)*2*y)\<close>,
  \<^verbatim>\<open>2*x+((source_image->x)*(2*y+1))\<close> and \<^verbatim>\<open>2*x+1+((source_image->x)*(2*y+1))\<close>.
\<close>

definition resize2_channel :: "channel \<Rightarrow> addr \<Rightarrow> addr \<Rightarrow> int \<Rightarrow> int \<Rightarrow> heap \<Rightarrow> error + heap" where
  "resize2_channel c source_image destination_image y x h =
     ebind (deref h destination_image) (\<lambda>d.
     ebind (deref h source_image) (\<lambda>s.
       let di = x + img_x d * y; sx = img_x s in
       ebind (assign_quarter c destination_image di source_image (2 * x + sx * 2 * y) h) (\<lambda>h1.
       ebind (add_quarter c destination_image di source_image (2 * x + 1 + sx * 2 * y) h1) (\<lambda>h2.
       ebind (add_quarter c destination_image di source_image (2 * x + sx * (2 * y + 1)) h2) (\<lambda>h3.
         add_quarter c destination_image di source_image (2 * x + 1 + sx * (2 * y + 1)) h3)))))"

definition resize2_pixel :: "addr \<Rightarrow> addr \<Rightarrow> int \<Rightarrow> int \<Rightarrow> heap \<Rightarrow> error + heap" where
  "resize2_pixel source_image destination_image y x h =
     ebind (resize2_channel Red source_image destination_image y x h) (\<lambda>h1.
     ebind (resize2_channel Green source_image destination_image y x h1) (\<lambda>h2.
       resize2_channel Blue source_image destination_image y x h2))"

definition resize2_row :: "addr \<Rightarrow> addr \<Rightarrow> int \<Rightarrow> heap \<Rightarrow> error + heap" where
  "resize2_row source_image destination_image y h =
     ebind (deref h destination_image) (\<lambda>d.
       for_loop (img_x d) (resize2_pixel source_image destination_image y) h)"

text \<open>
  \<^verbatim>\<open>PPMImage *resize2(PPMImage *source_image)\<close>:
  \<^verbatim>\<open>destination_image = init_destination_image(source_image, 0.5);\<close>
  \<^verbatim>\<open>destination_image->x = (source_image->x/2);\<close>
  \<^verbatim>\<open>destination_image->y = (source_image->y/2);\<close> and the two loops. The result is
  the heap and the pointer returned.
\<close>

definition resize2 :: "uninit \<Rightarrow> heap \<Rightarrow> addr \<Rightarrow> error + heap \<times> addr" where
  "resize2 fresh h source_image =
     ebind (init_destination_image fresh h source_image (1 / 2)) (\<lambda>(h0, destination_image).
     ebind (deref h0 source_image) (\<lambda>s.
     ebind (deref h0 destination_image) (\<lambda>d.
       let h1 = h0[destination_image := d\<lparr>img_x := c_div (img_x s) 2\<rparr>] in
       ebind (deref h1 source_image) (\<lambda>s1.
       ebind (deref h1 destination_image) (\<lambda>d1.
         let h2 = h1[destination_image := d1\<lparr>img_y := c_div (img_y s1) 2\<rparr>] in
         ebind (for_loop (c_div (img_y s1) 2) (resize2_row source_image destination_image) h2)
           (\<lambda>h3. Inr (h3, destination_image)))))))"

section \<open>The driver\<close>

text \<open>
  The files of the run, what the program printed, and the calls that reach the file
  system, in order.
\<close>

datatype message = Usage | Starting | ErrorScale | Deleting string | UsingQuick
  | SourceWidths int int | DestWidths int int

datatype fs_event = Remove string | OpenRead string | OpenWrite string

record world =
  files :: "string \<rightharpoonup> uint8_t list"
  stdout :: "message list"
  events :: "fs_event list"

text \<open>
  What \<^verbatim>\<open>main\<close> takes from outside the resampling code: \<^verbatim>\<open>atof\<close> of the C library, the
  parser of \<^verbatim>\<open>readPPM\<close> (from the bytes of a file to an image, or \<open>None\<close> where
  \<^verbatim>\<open>readPPM\<close> calls \<^verbatim>\<open>exit(1)\<close>), the bytes \<^verbatim>\<open>writePPM\<close> writes for an image, whether
  \<^verbatim>\<open>fopen(filename, "wb")\<close> succeeds, and the content of fresh memory.
\<close>

record env =
  env_atof :: "string \<Rightarrow> real"
  env_decode :: "uint8_t list \<Rightarrow> PPMImage option"
  env_encode :: "PPMImage \<Rightarrow> uint8_t list"
  env_writable :: "string \<Rightarrow> bool"
  env_fresh :: uninit

definition print :: "message \<Rightarrow> world \<Rightarrow> world" where
  "print m w = w\<lparr>stdout := stdout w @ [m]\<rparr>"

text \<open>
  \<^verbatim>\<open>if(remove(argv[3]) == 0) { printf("Deleting old image %s...\n\n", argv[3]);}\<close>
\<close>

definition remove_old :: "string \<Rightarrow> world \<Rightarrow> world" where
  "remove_old filename w =
     (let w' = w\<lparr>events := events w @ [Remove filename]\<rparr> in
      case files w filename of
        None \<Rightarrow> w'
      | Some _ \<Rightarrow> print (Deleting filename) (w'\<lparr>files := (files w)(filename := None)\<rparr>))"

text \<open>\<^verbatim>\<open>readPPM\<close>: \<^verbatim>\<open>fopen(filename, "rb")\<close>, then the parser; \<open>None\<close> is \<^verbatim>\<open>exit(1)\<close>.\<close>

definition readPPM :: "env \<Rightarrow> string \<Rightarrow> world \<Rightarrow> PPMImage option \<times> world" where
  "readPPM e filename w =
     (let w' = w\<lparr>events := events w @ [OpenRead filename]\<rparr> in
      case files w filename of
        None \<Rightarrow> (None, w')
      | Some bytes \<Rightarrow> (env_decode e bytes, w'))"

text \<open>\<^verbatim>\<open>writePPM\<close>: \<^verbatim>\<open>fopen(filename, "wb")\<close>, then the header and the pixels; \<open>False\<close> is
  \<^verbatim>\<open>exit(1)\<close>.\<close>

definition writePPM :: "env \<Rightarrow> string \<Rightarrow> PPMImage \<Rightarrow> world \<Rightarrow> bool \<times> world" where
  "writePPM e filename img w =
     (let w' = w\<lparr>events := events w @ [OpenWrite filename]\<rparr> in
      if env_writable e filename
      then (True, w'\<lparr>files := (files w)(filename \<mapsto> env_encode e img)\<rparr>)
      else (False, w'))"

text \<open>
  The \<^verbatim>\<open>else\<close> branch of \<^verbatim>\<open>main\<close>:
  \<^verbatim>\<open>destination_image = init_destination_image(source_image, scale);\<close>
  \<^verbatim>\<open>resize_image(source_image, destination_image, scale);\<close>
\<close>

definition main_resize :: "uninit \<Rightarrow> heap \<Rightarrow> addr \<Rightarrow> real \<Rightarrow> error + heap \<times> addr" where
  "main_resize fresh h source_image scale =
     ebind (init_destination_image fresh h source_image scale) (\<lambda>(h1, destination_image).
     ebind (resize_image h1 source_image destination_image scale) (\<lambda>h2.
       Inr (h2, destination_image)))"

text \<open>
  \<^verbatim>\<open>int main(int argc, char *argv[])\<close>. The result is the exit status and the world the
  program leaves, or an error where the resampling is undefined. \<^verbatim>\<open>strcmp(argv[1], "2x")\<close>
  is non-zero when the strings differ. The two lines that \<^verbatim>\<open>resize_image\<close> prints are
  \<open>SourceWidths\<close> and \<open>DestWidths\<close>.
\<close>

definition main :: "env \<Rightarrow> string list \<Rightarrow> world \<Rightarrow> error + int \<times> world" where
  "main e argv w =
     (if length argv \<noteq> 4 then Inr (99, print Usage w)
      else
        let scale = env_atof e (argv ! 1);
            w1 = print Starting w
        in
        if argv ! 1 \<noteq> ''2x'' \<and> scale \<le> 0 then Inr (99, print ErrorScale w1)
        else
          let w2 = remove_old (argv ! 3) w1 in
          case readPPM e (argv ! 2) w2 of
            (None, w3) \<Rightarrow> Inr (1, w3)
          | (Some source, w3) \<Rightarrow>
              ebind
                (if argv ! 1 = ''2x''
                 then ebind (resize2 (env_fresh e) [source] 0) (\<lambda>(h, d).
                        Inr (h, d, print UsingQuick w3))
                 else ebind (main_resize (env_fresh e) [source] 0 scale) (\<lambda>(h, d).
                        Inr (h, d, print (DestWidths (img_x (h ! d)) (img_y (h ! d)))
                                     (print (SourceWidths (img_x source) (img_y source)) w3))))
                (\<lambda>(h, d, w4).
                   case writePPM e (argv ! 3) (h ! d) w4 of
                     (False, w5) \<Rightarrow> Inr (1, w5)
                   | (True, w5) \<Rightarrow> Inr (0, w5)))"

section \<open>Well-formed images and the inputs of the examples\<close>

text \<open>
  The image that \<^verbatim>\<open>readPPM\<close> builds has positive sizes (a PPM header with a size of 0
  describes no picture), a block of exactly \<open>x * y\<close> pixels, and a pixel count that the
  \<^verbatim>\<open>int\<close> product \<^verbatim>\<open>img->x * img->y\<close> can hold.
\<close>

definition wf_image :: "PPMImage \<Rightarrow> bool" where
  "wf_image img \<longleftrightarrow>
     1 \<le> img_x img \<and> 1 \<le> img_y img \<and> img_x img * img_y img \<le> INT_MAX \<and>
     length (img_data img) = nat (img_x img * img_y img)"

definition rgb :: "nat \<Rightarrow> nat \<Rightarrow> nat \<Rightarrow> PPMPixel" where
  "rgb r g b = \<lparr>red = of_nat r, green = of_nat g, blue = of_nat b\<rparr>"

text \<open>The 2x2 image with the pixels (0,0,0), (255,255,255), (255,0,0), (0,255,0).\<close>

definition corners_2x2 :: PPMImage where
  "corners_2x2 =
     \<lparr>img_x = 2, img_y = 2,
      img_data = [rgb 0 0 0, rgb 255 255 255, rgb 255 0 0, rgb 0 255 0]\<rparr>"

text \<open>The 4x4 image whose pixels are all (200,100,50).\<close>

definition uniform_4x4 :: PPMImage where
  "uniform_4x4 = \<lparr>img_x = 4, img_y = 4, img_data = replicate 16 (rgb 200 100 50)\<rparr>"

text \<open>Fresh memory that holds (1,2,3) in every pixel and 7 and 9 in the size fields.\<close>

definition fresh_123 :: uninit where
  "fresh_123 = \<lparr>uninit_x = 7, uninit_y = 9, uninit_data = (\<lambda>_. rgb 1 2 3)\<rparr>"

text \<open>An environment whose \<^verbatim>\<open>atof\<close> reads "0" as 0, "-1" as -1 and anything else as 2.\<close>

definition env_example :: env where
  "env_example =
     \<lparr>env_atof = (\<lambda>s. if s = ''0'' then 0 else if s = ''-1'' then - 1 else 2),
      env_decode = (\<lambda>_. Some corners_2x2),
      env_encode = (\<lambda>_. []),
      env_writable = (\<lambda>_. True),
      env_fresh = fresh_123\<rparr>"

definition world_example :: world where
  "world_example =
     \<lparr>files = [''in.ppm'' \<mapsto> [], ''out.ppm'' \<mapsto> []], stdout = [], events = []\<rparr>"

section \<open>Notions used to state the results\<close>

text \<open>
  The pixel at column \<open>x\<close> and row \<open>y\<close>, as the program addresses it everywhere:
  \<^verbatim>\<open>img->data[x+((img->x)*y)]\<close>.
\<close>

definition pixel_at :: "PPMImage \<Rightarrow> int \<Rightarrow> int \<Rightarrow> PPMPixel" where
  "pixel_at img x y = img_data img ! nat (x + img_x img * y)"

text \<open>
  What the four statements of one channel leave in the destination pixel \<open>(x, y)\<close>: the sum,
  in 8 bits, of the four quarters.
\<close>

definition quarter_sum :: "channel \<Rightarrow> PPMImage \<Rightarrow> int \<Rightarrow> int \<Rightarrow> uint8_t" where
  "quarter_sum c s x y =
     get_channel c (img_data s ! nat (2 * x + img_x s * 2 * y)) div 4
     + get_channel c (img_data s ! nat (2 * x + 1 + img_x s * 2 * y)) div 4
     + get_channel c (img_data s ! nat (2 * x + img_x s * (2 * y + 1))) div 4
     + get_channel c (img_data s ! nat (2 * x + 1 + img_x s * (2 * y + 1))) div 4"

definition box_pixel :: "PPMImage \<Rightarrow> int \<Rightarrow> int \<Rightarrow> PPMPixel" where
  "box_pixel s x y =
     \<lparr>red = quarter_sum Red s x y, green = quarter_sum Green s x y,
      blue = quarter_sum Blue s x y\<rparr>"

text \<open>Two heaps that differ at most in the object at \<open>a\<close>.\<close>

definition frame :: "addr \<Rightarrow> heap \<Rightarrow> heap \<Rightarrow> bool" where
  "frame a h h' \<longleftrightarrow> length h' = length h \<and> (\<forall>b. b \<noteq> a \<longrightarrow> h' ! b = h ! b)"

section \<open>Evaluation of the error monad\<close>

lemma ebind_Inr [simp]: "ebind (Inr v) f = f v"
  by (simp add: ebind_def)

lemma ebind_Inl [simp]: "ebind (Inl e) f = Inl e"
  by (simp add: ebind_def)

lemma ebind_weak_cong: "m = m' \<Longrightarrow> ebind m f = ebind m' f"
  by simp

lemma ebind_eq_Inr: "ebind m f = Inr r \<longleftrightarrow> (\<exists>v. m = Inr v \<and> f v = Inr r)"
  by (cases m) simp_all

section \<open>The cubic kernel is the polynomial\<close>

text \<open>
  C7. For all control values \<open>A\<close>, \<open>B\<close>, \<open>C\<close>, \<open>D\<close> and every \<open>t\<close>, \<open>cubic_hermite\<close>
  returns \<open>a t\<^sup>3 + b t\<^sup>2 + c t + d\<close> with the coefficients
  \<open>a = -A/2 + 3B/2 - 3C/2 + D/2\<close>, \<open>b = A - 5B/2 + 2C - D/2\<close>, \<open>c = -A/2 + C/2\<close>, \<open>d = B\<close>;
  the value is the polynomial itself for every \<open>t\<close>, so nothing is clamped.
\<close>

theorem cubic_hermite_polynomial:
  "cubic_hermite A B C D t =
     (- A / 2 + 3 * B / 2 - 3 * C / 2 + D / 2) * t ^ 3
     + (A - 5 * B / 2 + 2 * C - D / 2) * t ^ 2
     + (- A / 2 + C / 2) * t
     + B"
  by (simp add: cubic_hermite_def power2_eq_square power3_eq_cube algebra_simps)

section \<open>The edge sampler stays inside the block\<close>

text \<open>
  C6. For a well-formed image and any integers \<open>x\<close> and \<open>y\<close>, \<open>get_pixel_clamped\<close>
  does not fail: it returns the three channels of the pixel stored at index
  \<open>clamp(x, 0, width - 1) + width * clamp(y, 0, height - 1)\<close>, and that index lies inside
  the pixel block.
\<close>

theorem get_pixel_clamped_in_bounds:
  assumes "wf_image img"
  shows "0 \<le> max 0 (min x (img_x img - 1)) + img_x img * max 0 (min y (img_y img - 1)) \<and>
         nat (max 0 (min x (img_x img - 1)) + img_x img * max 0 (min y (img_y img - 1)))
           < length (img_data img) \<and>
         get_pixel_clamped img x y =
           (let p = img_data img ! nat (max 0 (min x (img_x img - 1))
                                        + img_x img * max 0 (min y (img_y img - 1)))
            in Inr [red p, green p, blue p])"
proof -
  define w where "w = img_x img"
  define ht where "ht = img_y img"
  define cx where "cx = max 0 (min x (w - 1))"
  define cy where "cy = max 0 (min y (ht - 1))"
  from assms have w: "1 \<le> w" and ht: "1 \<le> ht" and fits: "w * ht \<le> INT_MAX"
    and len: "length (img_data img) = nat (w * ht)"
    by (simp_all add: wf_image_def w_def ht_def)
  have cx: "0 \<le> cx" "cx \<le> w - 1" using w by (simp_all add: cx_def)
  have cy: "0 \<le> cy" "cy \<le> ht - 1" using ht by (simp_all add: cy_def)
  have "w * cy \<le> w * (ht - 1)" using cy w by (intro mult_left_mono) simp_all
  then have up: "cx + w * cy < w * ht" using cx by (simp add: algebra_simps)
  have lo: "0 \<le> cx + w * cy" using cx cy w by simp
  have clx: "CLAMP x 0 (w - 1) = cx" using w by (simp add: CLAMP_def cx_def)
  have cly: "CLAMP y 0 (ht - 1) = cy" using ht by (simp add: CLAMP_def cy_def)
  have rng: "\<not> (cx + w * cy < INT_MIN \<or> INT_MAX < cx + w * cy)"
    using lo up fits by (simp add: INT_MIN_def INT_MAX_def)
  have idx: "nat (cx + w * cy) < length (img_data img)" using lo up len by simp
  have "get_pixel_clamped img x y =
          (let p = img_data img ! nat (cx + w * cy) in Inr [red p, green p, blue p])"
    using rng lo idx
    by (simp add: get_pixel_clamped_def load_pixel_def clx cly
        w_def [symmetric] ht_def [symmetric] Let_def)
  with lo idx show ?thesis
    by (simp add: cx_def cy_def w_def ht_def)
qed

theorem get_pixel_clamped_in_bounds_witness:
  "wf_image corners_2x2 \<and> get_pixel_clamped corners_2x2 (- 3) 5 = Inr [255, 0, 0]"
proof -
  have wf: "wf_image corners_2x2"
    by (simp add: wf_image_def corners_2x2_def INT_MAX_def)
  have "get_pixel_clamped corners_2x2 (- 3) 5 = Inr [255, 0, 0]"
    using get_pixel_clamped_in_bounds [OF wf, of "- 3" 5]
    by (simp add: corners_2x2_def rgb_def)
  with wf show ?thesis by simp
qed

section \<open>A scale that is not positive is rejected before any file is touched\<close>

text \<open>
  C8. When the program has its three arguments, the scale argument is not "2x" and
  \<^verbatim>\<open>atof\<close> reads it as a number \<open>\<le> 0\<close>, \<open>main\<close> prints the error and returns 99; the
  files are as before and no call has reached the file system (the world differs in what
  was printed only).
\<close>

theorem main_rejects_nonpositive_scale:
  assumes "length argv = 4" and "argv ! 1 \<noteq> ''2x''" and "env_atof e (argv ! 1) \<le> 0"
  shows "main e argv w = Inr (99, w\<lparr>stdout := stdout w @ [Starting, ErrorScale]\<rparr>)"
  using assms by (simp add: main_def print_def)

theorem main_rejects_nonpositive_scale_witness:
  "length [''imgResample'', ''-1'', ''in.ppm'', ''out.ppm''] = 4 \<and>
   [''imgResample'', ''-1'', ''in.ppm'', ''out.ppm''] ! 1 \<noteq> ''2x'' \<and>
   env_atof env_example ([''imgResample'', ''-1'', ''in.ppm'', ''out.ppm''] ! 1) \<le> 0 \<and>
   main env_example [''imgResample'', ''-1'', ''in.ppm'', ''out.ppm''] world_example =
     Inr (99, world_example\<lparr>stdout := [Starting, ErrorScale]\<rparr>)"
  using main_rejects_nonpositive_scale
    [of "[''imgResample'', ''-1'', ''in.ppm'', ''out.ppm'']" env_example world_example]
  by (simp add: env_example_def world_example_def)

section \<open>The bicubic sampler at the left and upper border\<close>

lemmas eval_defs = sample_xint_def sample_x_def double_to_int_def c_trunc_def INT_MIN_def
  INT_MAX_def sample_yint_def sample_y_def sample_xfract_def sample_yfract_def gather_row_def
  get_pixel_clamped_def CLAMP_def load_pixel_def sample_channel_def hermite_row_def
  cubic_hermite_def double_to_uint8_def interpolate_at_def sample_bicubic_def

lemmas loop_defs = main_resize_def init_destination_image_def deref_def double_to_size_t_def
  resize_image_def double_to_long_def long_to_int_def for_loop_def resize_image_row_def
  resize_image_pixel_def double_div_def store_pixel_def upt_conv_Cons

text \<open>
  C1, at \<open>u = 0\<close> and \<open>v = 0\<close> on the 2x2 image: the coordinate is \<open>x = -1/2\<close>, whose floor
  is \<open>-1\<close>, but the base index is \<open>xint = 0\<close> (the cast truncates towards zero), while
  \<open>xfract = 1/2\<close> is taken from the floor; so \<open>xfract\<close> is not \<open>x - xint = -1/2\<close>, and the
  same holds for \<open>y\<close>. The sample is (127,127,63) where the sampler of the specification
  returns (0,0,0).
\<close>

theorem sample_bicubic_anchor_at_zero:
  "sample_x corners_2x2 0 = - 1 / 2 \<and>
   sample_xint corners_2x2 0 = Inr 0 \<and>
   \<lfloor>sample_x corners_2x2 0\<rfloor> = - 1 \<and>
   sample_xfract corners_2x2 0 = 1 / 2 \<and>
   sample_x corners_2x2 0 - real_of_int 0 = - 1 / 2 \<and>
   sample_y corners_2x2 0 = - 1 / 2 \<and>
   sample_yint corners_2x2 0 = Inr 0 \<and>
   \<lfloor>sample_y corners_2x2 0\<rfloor> = - 1 \<and>
   sample_yfract corners_2x2 0 = 1 / 2 \<and>
   sample_y corners_2x2 0 - real_of_int 0 = - 1 / 2 \<and>
   sample_bicubic corners_2x2 0 0 = Inr [127, 127, 63] \<and>
   spec_sampleAt corners_2x2 0 0 = Inr [0, 0, 0]"
  by (simp add: eval_defs spec_sampleAt_def corners_2x2_def rgb_def cong: ebind_weak_cong)

text \<open>
  Where the coordinate is not negative the cast and the floor agree, and the fractional
  offset lies in \<open>[0, 1)\<close> for every coordinate.
\<close>

lemma sample_xint_nonneg:
  assumes "0 \<le> sample_x img u" and "sample_x img u < 2147483648"
  shows "sample_xint img u = Inr \<lfloor>sample_x img u\<rfloor>"
proof -
  have "0 \<le> \<lfloor>sample_x img u\<rfloor>" using assms(1) by simp
  moreover have "\<lfloor>sample_x img u\<rfloor> < 2147483648" using assms(2) by (simp add: floor_less_iff)
  ultimately show ?thesis
    using assms(1) by (simp add: sample_xint_def double_to_int_def c_trunc_def INT_MIN_def INT_MAX_def)
qed

lemma sample_xfract_range: "0 \<le> sample_xfract img u \<and> sample_xfract img u < 1"
  by (simp add: sample_xfract_def) linarith

text \<open>
  With the floor as the base index, the four corner samples of the 2x2 image are its four
  pixels.
\<close>

lemma spec_sampleAt_corners:
  "spec_sampleAt corners_2x2 0 0 = Inr [0, 0, 0]"
  "spec_sampleAt corners_2x2 1 0 = Inr [255, 255, 255]"
  "spec_sampleAt corners_2x2 0 1 = Inr [255, 0, 0]"
  "spec_sampleAt corners_2x2 1 1 = Inr [0, 255, 0]"
  by (simp_all add: eval_defs spec_sampleAt_def corners_2x2_def rgb_def cong: ebind_weak_cong)

section \<open>Resize by a factor on the 2x2 image\<close>

lemma main_resize_corners_2x2:
  "main_resize fresh_123 [corners_2x2] 0 1 =
     Inr ([corners_2x2,
           \<lparr>img_x = 2, img_y = 2,
            img_data = [rgb 127 127 63, rgb 127 255 135, rgb 127 127 0, rgb 0 255 0,
                        rgb 1 2 3, rgb 1 2 3]\<rparr>], 1)"
  by (simp add: loop_defs eval_defs corners_2x2_def rgb_def fresh_123_def cong: ebind_weak_cong)

text \<open>
  C3, evaluated: with the factor 1 the destination has the sizes 2 and 2, and its pixels are
  (127,127,63), (127,255,135), (127,127,0) and (0,255,0). Only the last one, whose
  coordinates are both positive, is the pixel of the source.
\<close>

theorem resize_image_corners_2x2:
  "main_resize fresh_123 [corners_2x2] 0 1 =
     Inr ([corners_2x2,
           \<lparr>img_x = 2, img_y = 2,
            img_data = [rgb 127 127 63, rgb 127 255 135, rgb 127 127 0, rgb 0 255 0,
                        rgb 1 2 3, rgb 1 2 3]\<rparr>], 1) \<and>
   img_data corners_2x2 = [rgb 0 0 0, rgb 255 255 255, rgb 255 0 0, rgb 0 255 0] \<and>
   rgb 127 127 63 \<noteq> rgb 0 0 0 \<and> rgb 127 255 135 \<noteq> rgb 255 255 255 \<and>
   rgb 127 127 0 \<noteq> rgb 255 0 0"
  using main_resize_corners_2x2 by (simp add: corners_2x2_def rgb_def)

section \<open>A destination of one pixel\<close>

text \<open>
  C4, evaluated: with the factor 1/2 the 2x2 image gives a destination of 1 by 1; the
  quotient \<open>0 / (1 - 1)\<close> is no number, nothing in \<open>resize_image\<close> tests for it, and the
  resize is undefined.
\<close>

theorem resize_image_one_pixel_undefined:
  "double_to_long (real_of_int (img_x corners_2x2) * (1 / 2)) = Inr 1 \<and>
   double_to_long (real_of_int (img_y corners_2x2) * (1 / 2)) = Inr 1 \<and>
   double_div 0 (1 - 1) = None \<and>
   main_resize fresh_123 [corners_2x2] 0 (1 / 2) = Inl UndefinedConversion"
  by (simp add: loop_defs eval_defs corners_2x2_def rgb_def fresh_123_def cong: ebind_weak_cong)

section \<open>The loops of the 2x downsample\<close>

text \<open>
  One pass of the body of \<^verbatim>\<open>resize2\<close> stores \<open>box_pixel\<close> into the destination pixel;
  the two loops do so for every pixel of the destination, and the block allocated for the
  factor 0.5 is large enough for them.
\<close>

lemma get_set_channel [simp]: "get_channel c (set_channel c v p) = v"
  by (cases c) simp_all

lemma set_set_channel [simp]: "set_channel c v (set_channel c v' p) = set_channel c v p"
  by (cases c) simp_all

lemma pixel_update_all:
  fixes p :: PPMPixel
  shows "p\<lparr>red := r, green := g, blue := b\<rparr> = \<lparr>red = r, green = g, blue = b\<rparr>"
  by (cases p) simp

lemma source_index_bounds:
  fixes w ht x y :: int
  assumes "2 \<le> w" and "2 \<le> ht" and "0 \<le> x" and "x < w div 2" and "0 \<le> y" and "y < ht div 2"
  shows "0 \<le> 2 * x + w * 2 * y" and "2 * x + 1 + w * (2 * y + 1) < w * ht"
    and "2 * x + w * 2 * y < w * ht" and "2 * x + 1 + w * 2 * y < w * ht"
    and "2 * x + w * (2 * y + 1) < w * ht"
    and "0 \<le> 2 * x + 1 + w * 2 * y" and "0 \<le> 2 * x + w * (2 * y + 1)"
    and "0 \<le> 2 * x + 1 + w * (2 * y + 1)"
proof -
  have x2: "2 * x + 1 \<le> w - 1" using assms(4) by linarith
  have y2: "2 * y + 1 \<le> ht - 1" using assms(6) by linarith
  have wy: "0 \<le> w * y" using assms by simp
  have "w * (2 * y + 1) \<le> w * (ht - 1)" using y2 assms(1) by (intro mult_left_mono) simp_all
  then have top: "w * (2 * y + 1) \<le> w * ht - w" by (simp add: algebra_simps)
  have eq: "w * (2 * y + 1) = w * 2 * y + w" by (simp add: algebra_simps)
  have eq2: "w * 2 * y = 2 * (w * y)" by simp
  show "0 \<le> 2 * x + w * 2 * y" using assms(3) wy eq2 by linarith
  show "2 * x + 1 + w * (2 * y + 1) < w * ht" using x2 top by linarith
  show "2 * x + w * 2 * y < w * ht" using x2 top eq assms(1) by linarith
  show "2 * x + 1 + w * 2 * y < w * ht" using x2 top eq assms(1) by linarith
  show "2 * x + w * (2 * y + 1) < w * ht" using x2 top by linarith
  show "0 \<le> 2 * x + 1 + w * 2 * y" using assms(3) wy eq2 by linarith
  show "0 \<le> 2 * x + w * (2 * y + 1)" using assms(3) wy eq eq2 assms(1) by linarith
  show "0 \<le> 2 * x + 1 + w * (2 * y + 1)" using assms(3) wy eq eq2 assms(1) by linarith
qed

lemma dest_index_bounds:
  fixes dw dh x y :: int
  assumes "0 \<le> x" and "x < dw" and "0 \<le> y" and "y < dh"
  shows "0 \<le> x + dw * y" and "x + dw * y < dw * dh"
proof -
  have dw: "0 \<le> dw" using assms by linarith
  then show "0 \<le> x + dw * y" using assms by simp
  have "dw * (y + 1) \<le> dw * dh" using assms dw by (intro mult_left_mono) simp_all
  then show "x + dw * y < dw * dh" using assms by (simp add: algebra_simps)
qed

lemma half_product_le:
  fixes w ht :: int
  assumes "0 \<le> w" and "0 \<le> ht"
  shows "(w div 2) * (ht div 2) \<le> w * ht"
proof -
  have "w div 2 \<le> w" "ht div 2 \<le> ht" "0 \<le> w div 2" "0 \<le> ht div 2" using assms by simp_all
  then show ?thesis by (intro mult_mono) simp_all
qed

lemma resize2_channel_step:
  assumes src: "src < length h" and wf: "wf_image (h ! src)"
    and w2: "2 \<le> img_x (h ! src)" and h2: "2 \<le> img_y (h ! src)"
    and x: "0 \<le> x" "x < img_x (h ! src) div 2" and y: "0 \<le> y" "y < img_y (h ! src) div 2"
    and cap: "nat (img_x (h ! src) div 2 * (img_y (h ! src) div 2)) \<le> length d"
  shows "resize2_channel c src (length h) y x
           (h @ [\<lparr>img_x = img_x (h ! src) div 2, img_y = img_y (h ! src) div 2, img_data = d\<rparr>]) =
         Inr (h @ [\<lparr>img_x = img_x (h ! src) div 2, img_y = img_y (h ! src) div 2,
                    img_data = d[nat (x + img_x (h ! src) div 2 * y) :=
                      set_channel c (quarter_sum c (h ! src) x y)
                        (d ! nat (x + img_x (h ! src) div 2 * y))]\<rparr>])"
proof -
  define S where "S = h ! src"
  define w where "w = img_x S"
  define ht where "ht = img_y S"
  define i where "i = x + w div 2 * y"
  from wf have fits: "w * ht \<le> INT_MAX" and len: "length (img_data S) = nat (w * ht)"
    by (simp_all add: wf_image_def S_def w_def ht_def)
  note sb = source_index_bounds [OF w2 h2 x y, folded S_def w_def ht_def]
  have db: "0 \<le> i" "i < w div 2 * (ht div 2)"
    using dest_index_bounds [OF x y] by (simp_all add: i_def w_def ht_def S_def)
  have hp: "w div 2 * (ht div 2) \<le> w * ht" using w2 h2 by (intro half_product_le) (simp_all add: w_def ht_def S_def)
  have i_rng: "\<not> (i < INT_MIN \<or> INT_MAX < i)" using db hp fits by (simp add: INT_MIN_def)
  have i_len: "nat i < length d" using db cap by (simp add: S_def w_def ht_def)
  have s_rng: "\<And>j. 0 \<le> j \<Longrightarrow> j < w * ht \<Longrightarrow> load_pixel S j = Inr (img_data S ! nat j)"
    using fits len by (simp add: load_pixel_def INT_MIN_def)
  have ds: "\<And>D. deref (h @ [D]) src = Inr S" using src by (simp add: deref_def nth_append S_def)
  have dd: "\<And>D. deref (h @ [D]) (length h) = Inr D" by (simp add: deref_def)
  have ld: "\<And>d'. length d' = length d \<Longrightarrow>
      load_pixel \<lparr>img_x = w div 2, img_y = ht div 2, img_data = d'\<rparr> i = Inr (d' ! nat i)"
    using i_rng i_len db by (simp add: load_pixel_def)
  have st: "\<And>d' p. length d' = length d \<Longrightarrow>
      store_pixel (h @ [\<lparr>img_x = w div 2, img_y = ht div 2, img_data = d'\<rparr>]) (length h) i p =
        Inr (h @ [\<lparr>img_x = w div 2, img_y = ht div 2, img_data = d'[nat i := p]\<rparr>])"
    using i_rng i_len db by (simp add: store_pixel_def dd)
  have "resize2_channel c src (length h) y x
           (h @ [\<lparr>img_x = w div 2, img_y = ht div 2, img_data = d\<rparr>]) =
         Inr (h @ [\<lparr>img_x = w div 2, img_y = ht div 2,
                    img_data = d[nat i := set_channel c (quarter_sum c S x y) (d ! nat i)]\<rparr>])"
    using i_len
    by (simp add: resize2_channel_def assign_quarter_def add_quarter_def ds dd s_rng sb ld st
        w_def [symmetric] i_def [symmetric] quarter_sum_def)
  then show ?thesis by (simp add: S_def w_def ht_def i_def)
qed

lemma fold_row_length:
  "length (fold (\<lambda>x d. d[base + x := g x]) [0..<n] d) = length d"
  by (induction n) simp_all

lemma fold_row_nth:
  "fold (\<lambda>x d. d[base + x := g x]) [0..<n] d ! i =
     (if base \<le> i \<and> i < base + n \<and> i < length d then g (i - base) else d ! i)"
proof (induction n)
  case 0
  then show ?case by auto
next
  case (Suc n)
  show ?case
  proof (cases "i = base + n")
    case True
    then show ?thesis using Suc by (simp add: fold_row_length list_update_beyond)
  next
    case False
    then show ?thesis using Suc by (simp add: nth_list_update) 
  qed
qed

lemma fold_rows_length:
  "length (fold (\<lambda>y d. fold (\<lambda>x d. d[dw * y + x := g x y]) [0..<dw] d) [0..<n] d) = length d"
  by (induction n) (simp_all add: fold_row_length)

lemma fold_rows_nth:
  assumes "dw * n \<le> length d"
  shows "fold (\<lambda>y d. fold (\<lambda>x d. d[dw * y + x := g x y]) [0..<dw] d) [0..<n] d ! i =
     (if i < dw * n then g (i mod dw) (i div dw) else d ! i)"
  using assms
proof (induction n)
  case 0
  then show ?case by simp
next
  case (Suc n)
  then have IH: "fold (\<lambda>y d. fold (\<lambda>x d. d[dw * y + x := g x y]) [0..<dw] d) [0..<n] d ! i =
     (if i < dw * n then g (i mod dw) (i div dw) else d ! i)" by simp
  from Suc.prems have len: "dw * n + dw \<le> length d" by simp
  show ?case
  proof (cases "dw * n \<le> i \<and> i < dw * n + dw")
    case True
    then have "i div dw = n" 
      by (metis add.commute div_nat_eqI mult_Suc_right)
    moreover from this True have "i mod dw = i - dw * n"
      by (metis minus_mult_div_eq_mod)
    ultimately show ?thesis using True len
      by (simp add: fold_row_nth fold_rows_length)
  next
    case False
    then show ?thesis using IH len
      by (auto simp add: fold_row_nth fold_rows_length)
  qed
qed


lemma for_each_data_fold:
  assumes "\<And>k d. k \<in> set ks \<Longrightarrow> length d = n \<Longrightarrow> body k (H d) = Inr (H (step k d))"
    and "\<And>k d. length (step k d) = length d"
    and "length d = n"
  shows "for_each body ks (H d) = Inr (H (fold step ks d))"
  using assms by (induction ks arbitrary: d) simp_all

lemma resize2_pixel_step:
  assumes src: "src < length h" and wf: "wf_image (h ! src)"
    and w2: "2 \<le> img_x (h ! src)" and h2: "2 \<le> img_y (h ! src)"
    and x: "0 \<le> x" "x < img_x (h ! src) div 2" and y: "0 \<le> y" "y < img_y (h ! src) div 2"
    and cap: "nat (img_x (h ! src) div 2 * (img_y (h ! src) div 2)) \<le> length d"
  shows "resize2_pixel src (length h) y x
           (h @ [\<lparr>img_x = img_x (h ! src) div 2, img_y = img_y (h ! src) div 2, img_data = d\<rparr>]) =
         Inr (h @ [\<lparr>img_x = img_x (h ! src) div 2, img_y = img_y (h ! src) div 2,
                    img_data = d[nat (x + img_x (h ! src) div 2 * y) := box_pixel (h ! src) x y]\<rparr>])"
proof -
  define i where "i = nat (x + img_x (h ! src) div 2 * y)"
  have "0 \<le> x + img_x (h ! src) div 2 * y"
    and "x + img_x (h ! src) div 2 * y < img_x (h ! src) div 2 * (img_y (h ! src) div 2)"
    using dest_index_bounds [OF x y] by simp_all
  then have i_len: "i < length d" using cap unfolding i_def by linarith
  note step = resize2_channel_step [OF src wf w2 h2 x y, folded i_def]
  show ?thesis
    using i_len cap
    by (simp add: resize2_pixel_def step i_def [symmetric] box_pixel_def pixel_update_all)
qed

lemma resize2_row_result:
  assumes src: "src < length h" and wf: "wf_image (h ! src)"
    and w2: "2 \<le> img_x (h ! src)" and h2: "2 \<le> img_y (h ! src)"
    and y: "y < nat (img_y (h ! src) div 2)"
    and cap: "nat (img_x (h ! src) div 2 * (img_y (h ! src) div 2)) \<le> length d"
  shows "resize2_row src (length h) (int y)
           (h @ [\<lparr>img_x = img_x (h ! src) div 2, img_y = img_y (h ! src) div 2, img_data = d\<rparr>]) =
         Inr (h @ [\<lparr>img_x = img_x (h ! src) div 2, img_y = img_y (h ! src) div 2,
                    img_data = fold (\<lambda>x d. d[nat (img_x (h ! src) div 2) * y + x :=
                                             box_pixel (h ! src) (int x) (int y)])
                                 [0..<nat (img_x (h ! src) div 2)] d\<rparr>])"
proof -
  define dw where "dw = img_x (h ! src) div 2"
  define dh where "dh = img_y (h ! src) div 2"
  define H where "H = (\<lambda>d. h @ [\<lparr>img_x = dw, img_y = dh, img_data = d\<rparr>])"
  have dw0: "0 \<le> dw" using w2 by (simp add: dw_def)
  have idx: "\<And>x. nat (int x + dw * int y) = nat dw * y + x"
  proof -
    fix x
    have "int x + dw * int y = int (nat dw * y + x)" using dw0 by simp
    then show "nat (int x + dw * int y) = nat dw * y + x" by (simp only: nat_int)
  qed
  have body: "\<And>k (d' :: PPMPixel list). k \<in> set [0..<nat dw] \<Longrightarrow> length d' = length d \<Longrightarrow>
      resize2_pixel src (length h) (int y) (int k) (H d') =
        Inr (H (d'[nat dw * y + k := box_pixel (h ! src) (int k) (int y)]))"
  proof -
    fix k and d' :: "PPMPixel list"
    assume k: "k \<in> set [0..<nat dw]" and len: "length d' = length d"
    have kx: "0 \<le> int k" "int k < img_x (h ! src) div 2" using k by (simp_all add: dw_def)
    have ky: "0 \<le> int y" "int y < img_y (h ! src) div 2" using y by simp_all
    have c': "nat (img_x (h ! src) div 2 * (img_y (h ! src) div 2)) \<le> length d'"
      using cap len by simp
    show "resize2_pixel src (length h) (int y) (int k) (H d') =
        Inr (H (d'[nat dw * y + k := box_pixel (h ! src) (int k) (int y)]))"
      using resize2_pixel_step [OF src wf w2 h2 kx ky c']
      by (simp add: H_def dw_def [symmetric] dh_def [symmetric] idx)
  qed
  have "for_each (\<lambda>k. resize2_pixel src (length h) (int y) (int k)) [0..<nat dw] (H d) =
        Inr (H (fold (\<lambda>x d. d[nat dw * y + x := box_pixel (h ! src) (int x) (int y)]) [0..<nat dw] d))"
    by (rule for_each_data_fold [where n = "length d"]) (simp_all add: body)
  then show ?thesis
    by (simp add: resize2_row_def for_loop_def deref_def H_def dw_def dh_def)
qed

lemma resize2_rows_result:
  assumes src: "src < length h" and wf: "wf_image (h ! src)"
    and w2: "2 \<le> img_x (h ! src)" and h2: "2 \<le> img_y (h ! src)"
    and cap: "nat (img_x (h ! src) div 2 * (img_y (h ! src) div 2)) \<le> length d"
  shows "for_loop (img_y (h ! src) div 2) (resize2_row src (length h))
           (h @ [\<lparr>img_x = img_x (h ! src) div 2, img_y = img_y (h ! src) div 2, img_data = d\<rparr>]) =
         Inr (h @ [\<lparr>img_x = img_x (h ! src) div 2, img_y = img_y (h ! src) div 2,
                    img_data =
                      fold (\<lambda>y. fold (\<lambda>x d. d[nat (img_x (h ! src) div 2) * y + x :=
                                               box_pixel (h ! src) (int x) (int y)])
                                   [0..<nat (img_x (h ! src) div 2)])
                        [0..<nat (img_y (h ! src) div 2)] d\<rparr>])"
  unfolding for_loop_def
  by (rule for_each_data_fold [where n = "length d"])
     (simp_all add: resize2_row_result [OF src wf w2 h2] cap fold_row_length)

lemma c_div_2_nonneg: "0 \<le> a \<Longrightarrow> c_div a 2 = a div 2"
  by (cases "a = 0") (simp_all add: c_div_def)

lemma product_ge_4:
  fixes a b :: int
  assumes "2 \<le> a" and "2 \<le> b"
  shows "4 \<le> a * b"
proof -
  have "2 * 2 \<le> a * b" using assms by (intro mult_mono) simp_all
  then show ?thesis by simp
qed

lemma half_bytes:
  fixes a b :: int
  shows "real_of_int a * (1 / 2 + 1 / 10) * real_of_int b * (1 / 2 + 1 / 2) * 3 =
         real_of_int (9 * (a * b)) / real_of_int 5"
  by simp

lemma half_product_quarter:
  fixes a b :: int
  assumes "2 \<le> a" and "2 \<le> b"
  shows "a div 2 * (b div 2) \<le> a * b div 4"
proof -
  have a: "2 * (a div 2) \<le> a" and b: "2 * (b div 2) \<le> b" by simp_all
  have "2 * (a div 2) * (2 * (b div 2)) \<le> a * b"
    using a b assms by (intro mult_mono) simp_all
  then have "4 * (a div 2 * (b div 2)) \<le> a * b" by simp
  then show ?thesis by linarith
qed

lemma half_capacity:
  fixes a b :: int
  assumes "2 \<le> a" and "2 \<le> b"
  shows "nat (a div 2 * (b div 2)) \<le> nat (9 * (a * b) div 5) div 3"
proof -
  have N4: "4 \<le> a * b" using assms by (rule product_ge_4)
  have "a * b div 4 \<le> 9 * (a * b) div 5 div 3" using N4 by linarith
  with half_product_quarter [OF assms] have "a div 2 * (b div 2) \<le> 9 * (a * b) div 5 div 3"
    by (rule order_trans)
  then have "nat (a div 2 * (b div 2)) \<le> nat (9 * (a * b) div 5 div 3)"
    by (rule nat_mono)
  also have "nat (9 * (a * b) div 5 div 3) = nat (9 * (a * b) div 5) div 3"
    using N4 by (simp add: nat_div_distrib)
  finally show ?thesis .
qed

lemma c_trunc_half_bytes:
  fixes N :: int
  assumes "4 \<le> N"
  shows "c_trunc (real_of_int (9 * N) / real_of_int 5) = 9 * N div 5"
proof -
  have "(0::real) \<le> real_of_int (9 * N) / real_of_int 5" using assms by simp
  then have "c_trunc (real_of_int (9 * N) / real_of_int 5) = \<lfloor>real_of_int (9 * N) / real_of_int 5\<rfloor>"
    by (simp only: c_trunc_def if_True)
  also have "\<dots> = 9 * N div 5" by (rule floor_divide_of_int_eq)
  finally show ?thesis .
qed

lemma half_size_t:
  fixes N :: int
  assumes "4 \<le> N" and "N \<le> 2147483647"
  shows "double_to_size_t (real_of_int (9 * N) / real_of_int 5) = Inr (nat (9 * N div 5))"
proof -
  have "0 \<le> 9 * N div 5" and "9 * N div 5 < 18446744073709551616"
    using assms by linarith+
  then show ?thesis
    unfolding double_to_size_t_def c_trunc_half_bytes [OF assms(1)] by simp
qed


lemma half_alloc:
  assumes src: "src < length h" and wf: "wf_image (h ! src)"
    and w2: "2 \<le> img_x (h ! src)" and h2: "2 \<le> img_y (h ! src)"
  shows "init_destination_image fresh h src (1 / 2) =
           Inr (h @ [\<lparr>img_x = uninit_x fresh, img_y = uninit_y fresh,
                      img_data = map (uninit_data fresh)
                        [0..<nat (9 * (img_x (h ! src) * img_y (h ! src)) div 5) div 3]\<rparr>],
                length h)"
proof -
  have N4: "4 \<le> img_x (h ! src) * img_y (h ! src)" using w2 h2 by (rule product_ge_4)
  have Nmax: "img_x (h ! src) * img_y (h ! src) \<le> 2147483647"
    using wf by (simp add: wf_image_def INT_MAX_def)
  have "init_destination_image fresh h src (1 / 2) =
          ebind (double_to_size_t
                   (real_of_int (img_x (h ! src)) * (1 / 2 + 1 / 10) * real_of_int (img_y (h ! src))
                    * (1 / 2 + 1 / 2) * 3))
            (\<lambda>bytes. Inr (h @ [\<lparr>img_x = uninit_x fresh, img_y = uninit_y fresh,
                                  img_data = map (uninit_data fresh) [0..<bytes div 3]\<rparr>],
                           length h))"
    using src by (simp only: init_destination_image_def deref_def if_True ebind_Inr)
  then show ?thesis
    by (simp only: half_bytes half_size_t [OF N4 Nmax] ebind_Inr)
qed


lemma resize2_result:
  assumes src: "src < length h" and wf: "wf_image (h ! src)"
    and w2: "2 \<le> img_x (h ! src)" and h2: "2 \<le> img_y (h ! src)"
  shows "\<exists>d. resize2 fresh h src =
           Inr (h @ [\<lparr>img_x = img_x (h ! src) div 2, img_y = img_y (h ! src) div 2,
                      img_data = d\<rparr>], length h) \<and>
         (\<forall>x y. 0 \<le> x \<and> x < img_x (h ! src) div 2 \<and> 0 \<le> y \<and> y < img_y (h ! src) div 2 \<longrightarrow>
            d ! nat (x + img_x (h ! src) div 2 * y) = box_pixel (h ! src) x y)"
proof -
  define dw where "dw = img_x (h ! src) div 2"
  define dh where "dh = img_y (h ! src) div 2"
  define d0 where "d0 = map (uninit_data fresh)
                          [0..<nat (9 * (img_x (h ! src) * img_y (h ! src)) div 5) div 3]"
  define d where "d = fold (\<lambda>y. fold (\<lambda>x d. d[nat dw * y + x := box_pixel (h ! src) (int x) (int y)])
                                  [0..<nat dw]) [0..<nat dh] d0"
  have alloc: "init_destination_image fresh h src (1 / 2) =
           Inr (h @ [\<lparr>img_x = uninit_x fresh, img_y = uninit_y fresh, img_data = d0\<rparr>], length h)"
    unfolding d0_def by (rule half_alloc [OF assms])
  have len0: "nat (dw * dh) \<le> length d0"
    using half_capacity [OF w2 h2] by (simp add: d0_def dw_def dh_def)
  have dw0: "0 \<le> dw" and dh0: "0 \<le> dh" using w2 h2 by (simp_all add: dw_def dh_def)
  have loops: "for_loop dh (resize2_row src (length h))
                 (h @ [\<lparr>img_x = dw, img_y = dh, img_data = d0\<rparr>]) =
               Inr (h @ [\<lparr>img_x = dw, img_y = dh, img_data = d\<rparr>])"
    using resize2_rows_result [OF src wf w2 h2, of d0] len0
    by (simp add: dw_def dh_def d_def)
  have cd: "c_div (img_x (h ! src)) 2 = dw" "c_div (img_y (h ! src)) 2 = dh"
    using w2 h2 by (simp_all add: c_div_2_nonneg dw_def dh_def)
  have run: "resize2 fresh h src = Inr (h @ [\<lparr>img_x = dw, img_y = dh, img_data = d\<rparr>], length h)"
    using src
    by (simp add: resize2_def alloc deref_def nth_append cd loops)
  have vals: "d ! nat (x + dw * y) = box_pixel (h ! src) x y"
    if "0 \<le> x" "x < dw" "0 \<le> y" "y < dh" for x y
  proof -
    have mul: "nat dw * nat dh \<le> length d0" using len0 dw0 dh0 by (simp add: nat_mult_distrib)
    have i: "nat (x + dw * y) = nat dw * nat y + nat x"
      using that dw0 by (simp add: nat_add_distrib nat_mult_distrib)
    have "nat dw * nat y + nat x < nat dw * nat y + nat dw" using that by simp
    also have "\<dots> = nat dw * Suc (nat y)" by simp
    also have "\<dots> \<le> nat dw * nat dh" using that by (intro mult_le_mono2) simp
    finally have lt: "nat dw * nat y + nat x < nat dw * nat dh" .
    have m: "(nat dw * nat y + nat x) mod nat dw = nat x" using that by simp
    have q: "(nat dw * nat y + nat x) div nat dw = nat y" using that by simp
    have "d ! (nat dw * nat y + nat x) = box_pixel (h ! src) (int (nat x)) (int (nat y))"
      unfolding d_def
      using fold_rows_nth [OF mul, of "\<lambda>x y. box_pixel (h ! src) (int x) (int y)"
          "nat dw * nat y + nat x"] lt
      by (simp only: m q if_True)
    then show ?thesis using that by (simp add: i)
  qed
  from run vals show ?thesis unfolding dw_def dh_def by blast
qed

lemma unat_quarter:
  fixes a :: uint8_t
  shows "unat (a div 4) = unat a div 4" and "unat a div 4 \<le> 63"
proof -
  show "unat (a div 4) = unat a div 4" by (simp add: unat_div)
  have "unat a < 2 ^ LENGTH(8)" by (rule unsigned_less)
  then have "unat a < 256" by simp
  then show "unat a div 4 \<le> 63" by linarith
qed

lemma unat_add_small:
  fixes p q :: uint8_t
  assumes "unat p + unat q < 256"
  shows "unat (p + q) = unat p + unat q"
proof -
  from assms have "unat p + unat q < 2 ^ LENGTH(8)" by simp
  then show ?thesis by (simp only: unat_add_lem)
qed

lemma unat_quarter_sum:
  fixes a b c e :: uint8_t
  shows "unat (a div 4 + b div 4 + c div 4 + e div 4) =
         unat a div 4 + unat b div 4 + unat c div 4 + unat e div 4"
proof -
  note q = unat_quarter(2) [of a] unat_quarter(2) [of b] unat_quarter(2) [of c]
    unat_quarter(2) [of e]
  have s2: "unat (a div 4 + b div 4) = unat a div 4 + unat b div 4"
    using q by (subst unat_add_small) (simp_all add: unat_quarter(1))
  have s3: "unat (a div 4 + b div 4 + c div 4) = unat a div 4 + unat b div 4 + unat c div 4"
    using q by (subst unat_add_small) (simp_all add: s2 unat_quarter(1))
  show ?thesis
    using q by (subst unat_add_small) (simp_all add: s3 unat_quarter(1))
qed

lemma unat_quarter_sum_le:
  fixes a b c e :: uint8_t
  shows "unat (a div 4 + b div 4 + c div 4 + e div 4) \<le> 252"
  using unat_quarter(2) [of a] unat_quarter(2) [of b] unat_quarter(2) [of c] unat_quarter(2) [of e]
  by (simp add: unat_quarter_sum)

lemma get_channel_box_pixel: "get_channel c (box_pixel s x y) = quarter_sum c s x y"
  by (cases c) (simp_all add: box_pixel_def)

lemma numeral_nat_4_8:
  "Suc (Suc (Suc (Suc 0))) = 4" "Suc (Suc (Suc (Suc (Suc 0)))) = 5"
  "Suc (Suc (Suc (Suc (Suc (Suc 0))))) = 6" "Suc (Suc (Suc (Suc (Suc (Suc (Suc 0)))))) = 7"
  "Suc (Suc (Suc (Suc (Suc (Suc (Suc (Suc 0))))))) = 8"
  by simp_all

lemmas resize2_defs = resize2_def init_destination_image_def deref_def double_to_size_t_def
  c_trunc_def c_div_def for_loop_def resize2_row_def resize2_pixel_def resize2_channel_def
  assign_quarter_def add_quarter_def load_pixel_def store_pixel_def INT_MIN_def INT_MAX_def
  upt_conv_Cons

lemma resize2_uniform_4x4:
  "resize2 fresh [uniform_4x4] 0 =
     Inr ([uniform_4x4,
           \<lparr>img_x = 2, img_y = 2,
            img_data = [rgb 200 100 48, rgb 200 100 48, rgb 200 100 48, rgb 200 100 48,
                        uninit_data fresh 4, uninit_data fresh 5, uninit_data fresh 6,
                        uninit_data fresh 7, uninit_data fresh 8]\<rparr>], 1)"
  by (simp add: resize2_defs uniform_4x4_def rgb_def numeral_nat_4_8 cong: ebind_weak_cong)

lemma wf_corners_2x2: "wf_image corners_2x2"
  by (simp add: wf_image_def corners_2x2_def INT_MAX_def)

section \<open>What the resampling operations leave alone\<close>

lemma frame_refl: "frame a h h"
  by (simp add: frame_def)

lemma frame_trans: "frame a h h1 \<Longrightarrow> frame a h1 h2 \<Longrightarrow> frame a h h2"
  by (simp add: frame_def)

lemma frame_update: "frame a h (h[a := v])"
  by (simp add: frame_def)

lemma store_pixel_frame: "store_pixel h a i p = Inr h' \<Longrightarrow> frame a h h'"
  by (auto simp add: store_pixel_def deref_def frame_def split: if_splits)

lemma for_each_frame:
  assumes "\<And>k s s'. body k s = Inr s' \<Longrightarrow> frame a s s'"
  shows "for_each body ks s = Inr s' \<Longrightarrow> frame a s s'"
proof (induction ks arbitrary: s)
  case Nil
  then show ?case by (simp add: frame_refl)
next
  case (Cons k ks)
  from Cons.prems obtain s1 where s1: "body k s = Inr s1" and rest: "for_each body ks s1 = Inr s'"
    by (auto simp add: ebind_eq_Inr)
  from assms [OF s1] Cons.IH [OF rest] show ?case by (rule frame_trans)
qed

lemma for_loop_frame:
  assumes "\<And>k s s'. body k s = Inr s' \<Longrightarrow> frame a s s'"
  shows "for_loop n body s = Inr s' \<Longrightarrow> frame a s s'"
  unfolding for_loop_def using assms by (rule for_each_frame)

lemma for_loop_frame_run:
  assumes "for_loop n body s = Inr s'"
    and "\<And>k s s'. body k s = Inr s' \<Longrightarrow> frame a s s'"
  shows "frame a s s'"
  using assms(2) assms(1) by (rule for_loop_frame)

lemma resize_image_pixel_frame:
  "resize_image_pixel src dst y v x h = Inr h' \<Longrightarrow> frame dst h h'"
  by (auto simp add: resize_image_pixel_def ebind_eq_Inr Let_def dest: store_pixel_frame)

lemma resize_image_row_frame:
  "resize_image_row src dst y h = Inr h' \<Longrightarrow> frame dst h h'"
  by (auto simp add: resize_image_row_def ebind_eq_Inr Let_def
      intro: for_loop_frame resize_image_pixel_frame)

lemma resize_image_frame:
  assumes "resize_image h src dst scale = Inr h'"
  shows "frame dst h h'"
proof -
  from assms obtain d lx d1 ly where
    loop: "for_loop (long_to_int ly) (resize_image_row src dst)
             (h[dst := d\<lparr>img_x := long_to_int lx\<rparr>, dst := d1\<lparr>img_y := long_to_int ly\<rparr>]) = Inr h'"
    by (auto simp add: resize_image_def ebind_eq_Inr Let_def)
  have "frame dst (h[dst := d\<lparr>img_x := long_to_int lx\<rparr>, dst := d1\<lparr>img_y := long_to_int ly\<rparr>]) h'"
    using loop by (rule for_loop_frame_run) (rule resize_image_row_frame)
  moreover have "frame dst h (h[dst := d\<lparr>img_x := long_to_int lx\<rparr>, dst := d1\<lparr>img_y := long_to_int ly\<rparr>])"
    by (simp add: frame_def)
  ultimately show ?thesis by (rule frame_trans [rotated])
qed

lemma init_destination_image_extends:
  "init_destination_image fresh h src scale = Inr (h1, dst) \<Longrightarrow>
     dst = length h \<and> src < length h \<and> take (length h) h1 = h \<and> length h1 = Suc (length h)"
  by (auto simp add: init_destination_image_def ebind_eq_Inr deref_def split: if_splits)

lemma frame_take:
  assumes "frame (length h) h1 h2" and "take (length h) h1 = h"
  shows "take (length h) h2 = h"
proof (rule nth_equalityI)
  from assms(2) have "min (length h1) (length h) = length h"
    by (metis length_take)
  then have "length h \<le> length h1" by simp
  with assms(1) show "length (take (length h) h2) = length h" by (simp add: frame_def)
next
  fix i assume "i < length (take (length h) h2)"
  then have i: "i < length h" by simp
  then have "take (length h) h2 ! i = h2 ! i" by simp
  also have "\<dots> = h1 ! i" using assms(1) i by (simp add: frame_def)
  also have "\<dots> = take (length h) h1 ! i" using i by simp
  finally show "take (length h) h2 ! i = h ! i" using assms(2) by simp
qed

lemma main_resize_extends:
  assumes "main_resize fresh h src scale = Inr (h', d)"
  shows "d = length h \<and> src < length h \<and> take (length h) h' = h"
proof -
  from assms obtain h1 where
    a: "init_destination_image fresh h src scale = Inr (h1, d)" and
    r: "resize_image h1 src d scale = Inr h'"
    by (auto simp add: main_resize_def ebind_eq_Inr)
  from init_destination_image_extends [OF a] have d: "d = length h" and s: "src < length h"
    and t: "take (length h) h1 = h" by simp_all
  from resize_image_frame [OF r] d have "frame (length h) h1 h'" by simp
  then have "take (length h) h' = h" using t by (rule frame_take)
  with d s show ?thesis by simp
qed

lemma quarter_frame:
  "assign_quarter c dst di src si h = Inr h' \<Longrightarrow> frame dst h h'"
  "add_quarter c dst di src si h = Inr h' \<Longrightarrow> frame dst h h'"
  by (auto simp add: assign_quarter_def add_quarter_def ebind_eq_Inr dest: store_pixel_frame)

lemma resize2_channel_frame:
  "resize2_channel c src dst y x h = Inr h' \<Longrightarrow> frame dst h h'"
  by (auto simp add: resize2_channel_def ebind_eq_Inr Let_def
      dest!: quarter_frame intro: frame_trans)

lemma resize2_pixel_frame:
  "resize2_pixel src dst y x h = Inr h' \<Longrightarrow> frame dst h h'"
  by (auto simp add: resize2_pixel_def ebind_eq_Inr
      dest!: resize2_channel_frame intro: frame_trans)

lemma resize2_row_frame:
  "resize2_row src dst y h = Inr h' \<Longrightarrow> frame dst h h'"
  by (auto simp add: resize2_row_def ebind_eq_Inr
      intro: for_loop_frame resize2_pixel_frame)

lemma resize2_extends:
  assumes "resize2 fresh h src = Inr (h', d)"
  shows "d = length h \<and> src < length h \<and> take (length h) h' = h"
proof -
  from assms obtain h0 dd dv lv where
    a: "init_destination_image fresh h src (1 / 2) = Inr (h0, d)" and
    loop: "for_loop lv (resize2_row src d) (h0[d := dd, d := dv]) = Inr h'"
    by (auto simp add: resize2_def ebind_eq_Inr Let_def)
  from init_destination_image_extends [OF a] have d: "d = length h" and s: "src < length h"
    and t: "take (length h) h0 = h" by simp_all
  have "frame d (h0[d := dd, d := dv]) h'"
    using loop by (rule for_loop_frame_run) (rule resize2_row_frame)
  moreover have "frame d h0 (h0[d := dd, d := dv])" by (simp add: frame_def)
  ultimately have "frame (length h) h0 h'" using d by (auto intro: frame_trans)
  then have "take (length h) h' = h" using t by (rule frame_take)
  with d s show ?thesis by simp
qed

section \<open>The 2x downsample: sizes, values and range\<close>

text \<open>
  C5. For a well-formed source of at least 2 by 2 pixels, \<open>resize2\<close> returns a destination
  of \<open>x div 2\<close> by \<open>y div 2\<close> pixels, and every channel of every destination pixel \<open>(x, y)\<close>
  is \<open>a div 4 + b div 4 + c div 4 + d div 4\<close> for the source samples \<open>a\<close>, \<open>b\<close>, \<open>c\<close>, \<open>d\<close>
  of that channel at \<open>(2x, 2y)\<close>, \<open>(2x+1, 2y)\<close>, \<open>(2x, 2y+1)\<close>, \<open>(2x+1, 2y+1)\<close>.
\<close>

theorem resize2_box_downsample:
  assumes "source_image < length h" and "wf_image (h ! source_image)"
    and "2 \<le> img_x (h ! source_image)" and "2 \<le> img_y (h ! source_image)"
  shows "\<exists>h' d. resize2 fresh h source_image = Inr (h', d) \<and> d < length h' \<and>
           img_x (h' ! d) = img_x (h ! source_image) div 2 \<and>
           img_y (h' ! d) = img_y (h ! source_image) div 2 \<and>
           (\<forall>x y c. 0 \<le> x \<and> x < img_x (h' ! d) \<and> 0 \<le> y \<and> y < img_y (h' ! d) \<longrightarrow>
              unat (get_channel c (pixel_at (h' ! d) x y)) =
                unat (get_channel c (pixel_at (h ! source_image) (2 * x) (2 * y))) div 4
                + unat (get_channel c (pixel_at (h ! source_image) (2 * x + 1) (2 * y))) div 4
                + unat (get_channel c (pixel_at (h ! source_image) (2 * x) (2 * y + 1))) div 4
                + unat (get_channel c (pixel_at (h ! source_image) (2 * x + 1) (2 * y + 1))) div 4)"
proof -
  from resize2_result [OF assms, of fresh] obtain d where
    run: "resize2 fresh h source_image =
            Inr (h @ [\<lparr>img_x = img_x (h ! source_image) div 2,
                       img_y = img_y (h ! source_image) div 2, img_data = d\<rparr>], length h)"
    and vals: "\<And>x y. 0 \<le> x \<Longrightarrow> x < img_x (h ! source_image) div 2 \<Longrightarrow> 0 \<le> y \<Longrightarrow>
                 y < img_y (h ! source_image) div 2 \<Longrightarrow>
                 d ! nat (x + img_x (h ! source_image) div 2 * y) = box_pixel (h ! source_image) x y"
    by blast
  show ?thesis
    by (rule exI [where x = "h @ [\<lparr>img_x = img_x (h ! source_image) div 2,
                       img_y = img_y (h ! source_image) div 2, img_data = d\<rparr>]"],
        rule exI [where x = "length h"])
       (simp add: run pixel_at_def vals get_channel_box_pixel quarter_sum_def unat_quarter_sum
          mult.assoc)
qed

theorem resize2_box_downsample_witness:
  "0 < length [corners_2x2] \<and> wf_image ([corners_2x2] ! 0) \<and>
   2 \<le> img_x ([corners_2x2] ! 0) \<and> 2 \<le> img_y ([corners_2x2] ! 0) \<and>
   (\<exists>h' d. resize2 fresh_123 [corners_2x2] 0 = Inr (h', d) \<and>
      img_x (h' ! d) = 1 \<and> img_y (h' ! d) = 1 \<and>
      unat (get_channel Red (pixel_at (h' ! d) 0 0)) = 126 \<and>
      unat (get_channel Blue (pixel_at (h' ! d) 0 0)) = 63)"
proof -
  have a: "0 < length [corners_2x2]" by simp
  have b: "wf_image ([corners_2x2] ! 0)" by (simp add: wf_corners_2x2)
  have c: "2 \<le> img_x ([corners_2x2] ! 0)" "2 \<le> img_y ([corners_2x2] ! 0)"
    by (simp_all add: corners_2x2_def)
  from resize2_box_downsample [OF a b c, of fresh_123] obtain h' d where
    run: "resize2 fresh_123 [corners_2x2] 0 = Inr (h', d)"
    and sz: "img_x (h' ! d) = img_x ([corners_2x2] ! 0) div 2"
            "img_y (h' ! d) = img_y ([corners_2x2] ! 0) div 2"
    and vals: "\<And>x y c. 0 \<le> x \<and> x < img_x (h' ! d) \<and> 0 \<le> y \<and> y < img_y (h' ! d) \<Longrightarrow>
              unat (get_channel c (pixel_at (h' ! d) x y)) =
                unat (get_channel c (pixel_at ([corners_2x2] ! 0) (2 * x) (2 * y))) div 4
                + unat (get_channel c (pixel_at ([corners_2x2] ! 0) (2 * x + 1) (2 * y))) div 4
                + unat (get_channel c (pixel_at ([corners_2x2] ! 0) (2 * x) (2 * y + 1))) div 4
                + unat (get_channel c (pixel_at ([corners_2x2] ! 0) (2 * x + 1) (2 * y + 1))) div 4"
    by blast
  have sz1: "img_x (h' ! d) = 1" "img_y (h' ! d) = 1" using sz by (simp_all add: corners_2x2_def)
  have r: "unat (get_channel Red (pixel_at (h' ! d) 0 0)) = 126"
    using vals [of 0 0 Red] sz1 by (simp add: pixel_at_def corners_2x2_def rgb_def)
  have bl: "unat (get_channel Blue (pixel_at (h' ! d) 0 0)) = 63"
    using vals [of 0 0 Blue] sz1 by (simp add: pixel_at_def corners_2x2_def rgb_def)
  from a b c run sz1 r bl show ?thesis by blast
qed

text \<open>
  C9. Under the same conditions every channel of every destination pixel is at most 252,
  so the 8-bit sums of the four quarters never wrap.
\<close>

theorem resize2_channel_range:
  assumes "source_image < length h" and "wf_image (h ! source_image)"
    and "2 \<le> img_x (h ! source_image)" and "2 \<le> img_y (h ! source_image)"
  shows "\<exists>h' d. resize2 fresh h source_image = Inr (h', d) \<and> d < length h' \<and>
           (\<forall>x y c. 0 \<le> x \<and> x < img_x (h' ! d) \<and> 0 \<le> y \<and> y < img_y (h' ! d) \<longrightarrow>
              unat (get_channel c (pixel_at (h' ! d) x y)) \<le> 252)"
proof -
  from resize2_result [OF assms, of fresh] obtain d where
    run: "resize2 fresh h source_image =
            Inr (h @ [\<lparr>img_x = img_x (h ! source_image) div 2,
                       img_y = img_y (h ! source_image) div 2, img_data = d\<rparr>], length h)"
    and vals: "\<And>x y. 0 \<le> x \<Longrightarrow> x < img_x (h ! source_image) div 2 \<Longrightarrow> 0 \<le> y \<Longrightarrow>
                 y < img_y (h ! source_image) div 2 \<Longrightarrow>
                 d ! nat (x + img_x (h ! source_image) div 2 * y) = box_pixel (h ! source_image) x y"
    by blast
  show ?thesis
    by (rule exI [where x = "h @ [\<lparr>img_x = img_x (h ! source_image) div 2,
                       img_y = img_y (h ! source_image) div 2, img_data = d\<rparr>]"],
        rule exI [where x = "length h"])
       (simp add: run pixel_at_def vals get_channel_box_pixel quarter_sum_def unat_quarter_sum_le)
qed

theorem resize2_channel_range_witness:
  "0 < length [corners_2x2] \<and> wf_image ([corners_2x2] ! 0) \<and>
   2 \<le> img_x ([corners_2x2] ! 0) \<and> 2 \<le> img_y ([corners_2x2] ! 0) \<and>
   (\<exists>h' d. resize2 fresh_123 [corners_2x2] 0 = Inr (h', d) \<and> d < length h' \<and>
      (\<forall>x y c. 0 \<le> x \<and> x < img_x (h' ! d) \<and> 0 \<le> y \<and> y < img_y (h' ! d) \<longrightarrow>
         unat (get_channel c (pixel_at (h' ! d) x y)) \<le> 252))"
proof -
  have a: "0 < length [corners_2x2]" by simp
  have b: "wf_image ([corners_2x2] ! 0)" by (simp add: wf_corners_2x2)
  have c: "2 \<le> img_x ([corners_2x2] ! 0)" "2 \<le> img_y ([corners_2x2] ! 0)"
    by (simp_all add: corners_2x2_def)
  from a b c resize2_channel_range [OF a b c, of fresh_123] show ?thesis by blast
qed

section \<open>The 2x downsample of a uniform image\<close>

text \<open>
  C2, as stated, fails: on the 4x4 image whose pixels are all (200,100,50) the destination
  pixels are (200,100,48), because \<open>50 div 4 = 12\<close> and \<open>4 * 12 = 48\<close>.
\<close>

theorem resize2_uniform_4x4_blue_48:
  "resize2 fresh_123 [uniform_4x4] 0 =
     Inr ([uniform_4x4,
           \<lparr>img_x = 2, img_y = 2,
            img_data = [rgb 200 100 48, rgb 200 100 48, rgb 200 100 48, rgb 200 100 48,
                        rgb 1 2 3, rgb 1 2 3, rgb 1 2 3, rgb 1 2 3, rgb 1 2 3]\<rparr>], 1) \<and>
   rgb 200 100 48 \<noteq> rgb 200 100 50"
  using resize2_uniform_4x4 [of fresh_123] by (simp add: fresh_123_def rgb_def)

text \<open>
  C2, amended: on that image \<open>resize2\<close> returns a destination of 2 by 2 pixels, each of
  them (200,100,48), whatever the fresh memory held.
\<close>

theorem resize2_uniform_4x4_result:
  "\<exists>h' d. resize2 fresh [uniform_4x4] 0 = Inr (h', d) \<and>
     img_x (h' ! d) = 2 \<and> img_y (h' ! d) = 2 \<and>
     pixel_at (h' ! d) 0 0 = rgb 200 100 48 \<and> pixel_at (h' ! d) 1 0 = rgb 200 100 48 \<and>
     pixel_at (h' ! d) 0 1 = rgb 200 100 48 \<and> pixel_at (h' ! d) 1 1 = rgb 200 100 48"
  by (simp add: resize2_uniform_4x4 pixel_at_def)

section \<open>The source is left unchanged\<close>

lemma resize_image_corners_in_place:
  "resize_image [corners_2x2, \<lparr>img_x = 7, img_y = 9, img_data = [rgb 1 2 3, rgb 1 2 3, rgb 1 2 3, rgb 1 2 3, rgb 1 2 3, rgb 1 2 3]\<rparr>] 0 1 1 =
     Inr [corners_2x2,
           \<lparr>img_x = 2, img_y = 2,
            img_data = [rgb 127 127 63, rgb 127 255 135, rgb 127 127 0, rgb 0 255 0,
                        rgb 1 2 3, rgb 1 2 3]\<rparr>]"
  by (simp add: loop_defs eval_defs corners_2x2_def rgb_def cong: ebind_weak_cong)

text \<open>
  C10. When the resize by a factor, as \<open>main\<close> runs it (allocation of the destination,
  then \<open>resize_image\<close>), or the 2x downsample returns, the destination is a new object, and
  every object the heap held before, the source among them, is what it was: its sizes
  and every pixel. \<open>resize_image\<close> itself changes no object but the one its destination
  pointer names.
\<close>

theorem resampling_leaves_source_unchanged:
  "(main_resize fresh h source_image scale = Inr (h1, d1) \<longrightarrow>
      d1 \<noteq> source_image \<and> h1 ! source_image = h ! source_image \<and> take (length h) h1 = h) \<and>
   (resize2 fresh h source_image = Inr (h2, d2) \<longrightarrow>
      d2 \<noteq> source_image \<and> h2 ! source_image = h ! source_image \<and> take (length h) h2 = h) \<and>
   (resize_image h source_image destination_image scale = Inr h3 \<longrightarrow>
      length h3 = length h \<and> (\<forall>a. a \<noteq> destination_image \<longrightarrow> h3 ! a = h ! a))"
proof (intro conjI impI)
  assume r: "main_resize fresh h source_image scale = Inr (h1, d1)"
  from main_resize_extends [OF r] have d: "d1 = length h" and s: "source_image < length h"
    and t: "take (length h) h1 = h" by simp_all
  from d s show "d1 \<noteq> source_image" by simp
  from t show "take (length h) h1 = h" .
  from s have "take (length h) h1 ! source_image = h1 ! source_image" by simp
  with t show "h1 ! source_image = h ! source_image" by simp
next
  assume r: "resize2 fresh h source_image = Inr (h2, d2)"
  from resize2_extends [OF r] have d: "d2 = length h" and s: "source_image < length h"
    and t: "take (length h) h2 = h" by simp_all
  from d s show "d2 \<noteq> source_image" by simp
  from t show "take (length h) h2 = h" .
  from s have "take (length h) h2 ! source_image = h2 ! source_image" by simp
  with t show "h2 ! source_image = h ! source_image" by simp
next
  assume r: "resize_image h source_image destination_image scale = Inr h3"
  from resize_image_frame [OF r] show "length h3 = length h"
    and "\<forall>a. a \<noteq> destination_image \<longrightarrow> h3 ! a = h ! a"
    by (simp_all add: frame_def)
qed

theorem resampling_leaves_source_unchanged_witness:
  "main_resize fresh_123 [corners_2x2] 0 1 =
     Inr ([corners_2x2,
           \<lparr>img_x = 2, img_y = 2,
            img_data = [rgb 127 127 63, rgb 127 255 135, rgb 127 127 0, rgb 0 255 0,
                        rgb 1 2 3, rgb 1 2 3]\<rparr>], 1) \<and>
   [corners_2x2,
           \<lparr>img_x = 2, img_y = 2,
            img_data = [rgb 127 127 63, rgb 127 255 135, rgb 127 127 0, rgb 0 255 0,
                        rgb 1 2 3, rgb 1 2 3]\<rparr>] ! 0 = [corners_2x2] ! 0 \<and>
   resize2 fresh_123 [uniform_4x4] 0 =
     Inr ([uniform_4x4,
           \<lparr>img_x = 2, img_y = 2,
            img_data = [rgb 200 100 48, rgb 200 100 48, rgb 200 100 48, rgb 200 100 48,
                        rgb 1 2 3, rgb 1 2 3, rgb 1 2 3, rgb 1 2 3, rgb 1 2 3]\<rparr>], 1) \<and>
   [uniform_4x4,
           \<lparr>img_x = 2, img_y = 2,
            img_data = [rgb 200 100 48, rgb 200 100 48, rgb 200 100 48, rgb 200 100 48,
                        rgb 1 2 3, rgb 1 2 3, rgb 1 2 3, rgb 1 2 3, rgb 1 2 3]\<rparr>] ! 0
     = [uniform_4x4] ! 0 \<and>
   resize_image [corners_2x2, \<lparr>img_x = 7, img_y = 9, img_data = [rgb 1 2 3, rgb 1 2 3, rgb 1 2 3, rgb 1 2 3, rgb 1 2 3, rgb 1 2 3]\<rparr>] 0 1 1 =
     Inr [corners_2x2,
           \<lparr>img_x = 2, img_y = 2,
            img_data = [rgb 127 127 63, rgb 127 255 135, rgb 127 127 0, rgb 0 255 0,
                        rgb 1 2 3, rgb 1 2 3]\<rparr>] \<and>
   (0::nat) \<noteq> 1 \<and>
   [corners_2x2,
           \<lparr>img_x = 2, img_y = 2,
            img_data = [rgb 127 127 63, rgb 127 255 135, rgb 127 127 0, rgb 0 255 0,
                        rgb 1 2 3, rgb 1 2 3]\<rparr>] ! 0
     = [corners_2x2, \<lparr>img_x = 7, img_y = 9, img_data = [rgb 1 2 3, rgb 1 2 3, rgb 1 2 3, rgb 1 2 3, rgb 1 2 3, rgb 1 2 3]\<rparr>] ! 0"
proof -
  have e1: "main_resize fresh_123 [corners_2x2] 0 1 =
     Inr ([corners_2x2,
           \<lparr>img_x = 2, img_y = 2,
            img_data = [rgb 127 127 63, rgb 127 255 135, rgb 127 127 0, rgb 0 255 0,
                        rgb 1 2 3, rgb 1 2 3]\<rparr>], 1)"
    by (rule main_resize_corners_2x2)
  have e2: "resize2 fresh_123 [uniform_4x4] 0 =
     Inr ([uniform_4x4,
           \<lparr>img_x = 2, img_y = 2,
            img_data = [rgb 200 100 48, rgb 200 100 48, rgb 200 100 48, rgb 200 100 48,
                        rgb 1 2 3, rgb 1 2 3, rgb 1 2 3, rgb 1 2 3, rgb 1 2 3]\<rparr>], 1)"
    using resize2_uniform_4x4 [of fresh_123] by (simp add: fresh_123_def)
  note e3 = resize_image_corners_in_place
  note t = resampling_leaves_source_unchanged [of fresh_123 "[corners_2x2]" 0 1 _ 1, THEN conjunct1, rule_format, OF e1]
  note u = resampling_leaves_source_unchanged [of fresh_123 "[uniform_4x4]" 0 _ _ _ _ 1, THEN conjunct2, THEN conjunct1, rule_format, OF e2]
  note v = resampling_leaves_source_unchanged [THEN conjunct2, THEN conjunct2, rule_format, OF e3]
  have v0: "(0::nat) \<noteq> 1" by simp
  from e1 t e2 u e3 v v0 show ?thesis by (simp only: simp_thms)
qed

end
